theory Spec2Isabelle
  imports Main "HOL-Library.Monad_Syntax" "HOL-Library.Sublist" "HOL-Library.Word"
begin

unbundle bit_operations_syntax

section \<open>Strings\<close>

text \<open>
  A Python \<open>str\<close> is modelled as a \<open>string\<close> whose characters are the code points
  below 256. The whitespace characters are the ones \<open>str.split\<close>, \<open>str.strip\<close> and the
  regular expression class \<open>\s\<close> agree on in that range.
\<close>

definition isspace :: "char \<Rightarrow> bool" where
  "isspace c \<longleftrightarrow>
     c \<in> set [CHR 0x09, CHR 0x0A, CHR 0x0B, CHR 0x0C, CHR 0x0D, CHR 0x1C, CHR 0x1D,
              CHR 0x1E, CHR 0x1F, CHR 0x20, CHR 0x85, CHR 0xA0]"

text \<open>\<open>str.lower\<close> on one character: A-Z and the upper-case letters of Latin-1.\<close>

definition lower_char :: "char \<Rightarrow> char" where
  "lower_char c =
     (let n = (of_char c :: nat)
      in if (65 \<le> n \<and> n \<le> 90) \<or> (192 \<le> n \<and> n \<le> 222 \<and> n \<noteq> 215)
         then char_of (n + 32) else c)"

definition lower :: "string \<Rightarrow> string" where
  "lower s = map lower_char s"

text \<open>\<open>s.strip()\<close>: trailing, then leading whitespace removed.\<close>

definition rstrip :: "string \<Rightarrow> string" where
  "rstrip s = rev (dropWhile isspace (rev s))"

definition strip :: "string \<Rightarrow> string" where
  "strip s = dropWhile isspace (rstrip s)"

text \<open>
  \<open>s.split()\<close>: the maximal runs of non-whitespace characters, in order. \<open>cur\<close> is the
  word being read.
\<close>

fun split_from :: "string \<Rightarrow> string \<Rightarrow> string list" where
  "split_from cur [] = (if cur = [] then [] else [cur])"
| "split_from cur (c # cs) =
     (if isspace c then (if cur = [] then split_from [] cs else cur # split_from [] cs)
      else split_from (cur @ [c]) cs)"

definition split :: "string \<Rightarrow> string list" where
  "split s = split_from [] s"

text \<open>\<open>sep.join(xs)\<close>\<close>

fun join :: "string \<Rightarrow> string list \<Rightarrow> string" where
  "join sep [] = []"
| "join sep [x] = x"
| "join sep (x # y # ys) = x @ sep @ join sep (y # ys)"

text \<open>\<open>s.split(sep)[0]\<close> for a one-character separator: the text before its first occurrence.\<close>

definition split_first :: "char \<Rightarrow> string \<Rightarrow> string" where
  "split_first sep s = takeWhile (\<lambda>c. c \<noteq> sep) s"

section \<open>md5\<close>

text \<open>
  \<open>hashlib.md5(text.encode()).hexdigest()\<close>: the UTF-8 encoding of the text, the MD5
  digest of those bytes (RFC 1321) and its 32 lower-case hexadecimal digits.
\<close>

definition encode :: "string \<Rightarrow> 8 word list" where
  "encode s =
     concat (map (\<lambda>c. let n = (of_char c :: nat)
                      in if n < 128 then [of_nat n]
                         else [of_nat (192 + n div 64), of_nat (128 + n mod 64)]) s)"

definition md5_shifts :: "nat list" where
  "md5_shifts =
     [7, 12, 17, 22, 7, 12, 17, 22, 7, 12, 17, 22, 7, 12, 17, 22,
      5, 9, 14, 20, 5, 9, 14, 20, 5, 9, 14, 20, 5, 9, 14, 20,
      4, 11, 16, 23, 4, 11, 16, 23, 4, 11, 16, 23, 4, 11, 16, 23,
      6, 10, 15, 21, 6, 10, 15, 21, 6, 10, 15, 21, 6, 10, 15, 21]"

definition md5_sines :: "32 word list" where
  "md5_sines =
     [0xd76aa478, 0xe8c7b756, 0x242070db, 0xc1bdceee,
      0xf57c0faf, 0x4787c62a, 0xa8304613, 0xfd469501,
      0x698098d8, 0x8b44f7af, 0xffff5bb1, 0x895cd7be,
      0x6b901122, 0xfd987193, 0xa679438e, 0x49b40821,
      0xf61e2562, 0xc040b340, 0x265e5a51, 0xe9b6c7aa,
      0xd62f105d, 0x02441453, 0xd8a1e681, 0xe7d3fbc8,
      0x21e1cde6, 0xc33707d6, 0xf4d50d87, 0x455a14ed,
      0xa9e3e905, 0xfcefa3f8, 0x676f02d9, 0x8d2a4c8a,
      0xfffa3942, 0x8771f681, 0x6d9d6122, 0xfde5380c,
      0xa4beea44, 0x4bdecfa9, 0xf6bb4b60, 0xbebfbc70,
      0x289b7ec6, 0xeaa127fa, 0xd4ef3085, 0x04881d05,
      0xd9d4d039, 0xe6db99e5, 0x1fa27cf8, 0xc4ac5665,
      0xf4292244, 0x432aff97, 0xab9423a7, 0xfc93a039,
      0x655b59c3, 0x8f0ccc92, 0xffeff47d, 0x85845dd1,
      0x6fa87e4f, 0xfe2ce6e0, 0xa3014314, 0x4e0811a1,
      0xf7537e82, 0xbd3af235, 0x2ad7d2bb, 0xeb86d391]"

text \<open>The message, one 1 bit, zeros up to 56 modulo 64 bytes, and the bit length on 8 bytes.\<close>

definition le_word :: "8 word list \<Rightarrow> 32 word" where
  "le_word bs = foldr (\<lambda>b w. ucast b + push_bit 8 w) bs 0"

definition le_bytes :: "nat \<Rightarrow> 'a::len word \<Rightarrow> 8 word list" where
  "le_bytes k w = map (\<lambda>i. ucast (drop_bit (8 * i) w)) [0..<k]"

definition md5_pad :: "8 word list \<Rightarrow> 8 word list" where
  "md5_pad bs =
     (let n = length bs
      in bs @ [0x80] @ replicate ((119 - n mod 64) mod 64) 0
            @ le_bytes 8 (of_nat (8 * n) :: 64 word))"

fun chunks :: "nat \<Rightarrow> nat \<Rightarrow> 'a list \<Rightarrow> 'a list list" where
  "chunks 0 k xs = []"
| "chunks (Suc n) k xs = take k xs # chunks n k (drop k xs)"

type_synonym md5_state = "32 word \<times> 32 word \<times> 32 word \<times> 32 word"

definition md5_round :: "32 word list \<Rightarrow> md5_state \<Rightarrow> nat \<Rightarrow> md5_state" where
  "md5_round m st i =
     (case st of (a, b, c, d) \<Rightarrow>
        let (f, g) =
              (if i < 16 then ((b AND c) OR (NOT b AND d), i)
               else if i < 32 then ((d AND b) OR (NOT d AND c), (5 * i + 1) mod 16)
               else if i < 48 then (b XOR c XOR d, (3 * i + 5) mod 16)
               else (c XOR (b OR NOT d), (7 * i) mod 16));
            f' = f + a + md5_sines ! i + m ! g
        in (d, b + word_rotl (md5_shifts ! i) f', b, c))"

definition md5_block :: "md5_state \<Rightarrow> 8 word list \<Rightarrow> md5_state" where
  "md5_block st block =
     (let m = map le_word (chunks 16 4 block)
      in case (st, foldl (md5_round m) st [0..<64]) of
           ((a0, b0, c0, d0), (a, b, c, d)) \<Rightarrow> (a0 + a, b0 + b, c0 + c, d0 + d))"

definition md5 :: "8 word list \<Rightarrow> 8 word list" where
  "md5 bs =
     (let p = md5_pad bs
      in case foldl md5_block (0x67452301, 0xefcdab89, 0x98badcfe, 0x10325476)
                (chunks (length p div 64) 64 p) of
           (a, b, c, d) \<Rightarrow> le_bytes 4 a @ le_bytes 4 b @ le_bytes 4 c @ le_bytes 4 d)"

definition hexdigest :: "8 word list \<Rightarrow> string" where
  "hexdigest bs =
     concat (map (\<lambda>b. [''0123456789abcdef'' ! (unat b div 16),
                       ''0123456789abcdef'' ! (unat b mod 16)]) bs)"

section \<open>PGFunction\<close>

text \<open>
  Modelled from the spec: the base class \<open>ReplaceableObject\<close> (module
  \<open>alembic_utils.replaceable_object\<close>) is not among the sources. A routine definition
  is a plain value with the three fields the constructor call in \<open>from_sql\<close> passes:
  schema, signature and definition (the body). The field \<open>definition\<close> is written
  \<open>definition'\<close> here.
\<close>

record PGFunction =
  schema :: string
  signature :: string
  definition' :: string

subsection \<open>from_sql\<close>

text \<open>
  \<open>parse(template, text, case_sensitive=False)\<close> compiles the template
  \<^verbatim>\<open>create{:s}or{:s}replace{:s}function{:s}{schema}.{signature}{:s}returns{:s}{definition}\<close>
  to the anchored regular expression
  \<^verbatim>\<open>create(\s+)or(\s+)replace(\s+)function(\s+)(.+?)\.(.+?)(\s+)returns(\s+)(.+?)\<close>
  with the flags IGNORECASE and DOTALL, and matches it by backtracking. The functions
  below follow that search: a literal is compared letter by letter ignoring case, a
  greedy \<open>\s+\<close> tries the longest run first, a lazy \<open>.+?\<close> the shortest text first.
\<close>

fun match_literal :: "string \<Rightarrow> string \<Rightarrow> string option" where
  "match_literal [] s = Some s"
| "match_literal (p # ps) [] = None"
| "match_literal (p # ps) (c # cs) =
     (if lower_char c = lower_char p then match_literal ps cs else None)"

text \<open>\<open>\s+\<close> in front of a literal that starts with a letter: the whole run or nothing.\<close>

definition match_ws :: "string \<Rightarrow> string option" where
  "match_ws s = (if takeWhile isspace s = [] then None else Some (dropWhile isspace s))"

text \<open>
  \<^verbatim>\<open>(\s+)returns(\s+)(.+?)\<close> up to the end of the text. The last \<open>\s+\<close> gives one
  character back when nothing but whitespace follows the keyword.
\<close>

definition match_tail :: "string \<Rightarrow> string option" where
  "match_tail t =
     do {
       r \<leftarrow> match_ws t;
       r2 \<leftarrow> match_literal ''returns'' r;
       let w = takeWhile isspace r2;
       let d = dropWhile isspace r2;
       if w = [] then None
       else if d \<noteq> [] then Some d
       else if 2 \<le> length w then Some [last w]
       else None
     }"

text \<open>\<open>(.+?)\<close> for the signature: the shortest non-empty text after which the tail matches.\<close>

fun find_signature :: "string \<Rightarrow> string \<Rightarrow> (string \<times> string) option" where
  "find_signature acc [] = None"
| "find_signature acc (c # cs) =
     (case match_tail cs of
        Some d \<Rightarrow> Some (acc @ [c], d)
      | None \<Rightarrow> find_signature (acc @ [c]) cs)"

text \<open>\<open>(.+?)\.\<close> for the schema: the shortest non-empty text before a dot after which the rest matches.\<close>

fun find_schema :: "string \<Rightarrow> string \<Rightarrow> (string \<times> string \<times> string) option" where
  "find_schema acc [] = None"
| "find_schema acc (c # cs) =
     (case cs of
        [] \<Rightarrow> None
      | d # ds \<Rightarrow>
          if d = CHR ''.'' then
            (case find_signature [] ds of
               Some (sg, df) \<Rightarrow> Some (acc @ [c], sg, df)
             | None \<Rightarrow> find_schema (acc @ [c]) cs)
          else find_schema (acc @ [c]) cs)"

fun first_some :: "('a \<Rightarrow> 'b option) \<Rightarrow> 'a list \<Rightarrow> 'b option" where
  "first_some f [] = None"
| "first_some f (x # xs) = (case f x of Some y \<Rightarrow> Some y | None \<Rightarrow> first_some f xs)"

text \<open>
  \<open>(\s+)\<close> after \<open>function\<close>: the run of whitespace, longest first; the characters it
  gives back go to the schema.
\<close>

definition match_header :: "string \<Rightarrow> (string \<times> string \<times> string) option" where
  "match_header s =
     (let w = takeWhile isspace s; r = dropWhile isspace s
      in first_some (\<lambda>k. find_schema [] (drop k w @ r)) (rev [1..<Suc (length w)]))"

definition parse_template :: "string \<Rightarrow> (string \<times> string \<times> string) option" where
  "parse_template s =
     do {
       s1 \<leftarrow> match_literal ''create'' s;
       s2 \<leftarrow> match_ws s1;
       s3 \<leftarrow> match_literal ''or'' s2;
       s4 \<leftarrow> match_ws s3;
       s5 \<leftarrow> match_literal ''replace'' s4;
       s6 \<leftarrow> match_ws s5;
       s7 \<leftarrow> match_literal ''function'' s6;
       match_header s7
     }"

definition from_sql :: "string \<Rightarrow> PGFunction option" where
  "from_sql sql =
     (case parse_template (strip sql) of
        Some (sch, sg, df) \<Rightarrow>
          Some \<lparr>schema = sch, signature = sg, definition' = ''returns '' @ df\<rparr>
      | None \<Rightarrow> None)"

subsection \<open>Comparison\<close>

definition normalize_whitespace :: "string \<Rightarrow> string \<Rightarrow> string" where
  "normalize_whitespace text base_whitespace = join base_whitespace (split text)"

definition is_equal_definition :: "PGFunction \<Rightarrow> PGFunction \<Rightarrow> bool" where
  "is_equal_definition self other =
     (let def1 = normalize_whitespace (definition' self) '' '';
          def2 = normalize_whitespace (definition' other) '' ''
      in def1 = def2)"

definition is_equal_signature :: "PGFunction \<Rightarrow> PGFunction \<Rightarrow> bool" where
  "is_equal_signature self other =
     (let def1 = normalize_whitespace (signature self) '' '';
          def2 = normalize_whitespace (signature other) '' ''
      in def1 = def2 \<and> schema self = schema other)"

definition to_variable_name :: "PGFunction \<Rightarrow> string" where
  "to_variable_name self =
     (let schema_name = strip (lower (schema self));
          function_name = lower (strip (split_first CHR ''('' (signature self)));
          sg = normalize_whitespace (lower (signature self)) '' '';
          signature_md5 = hexdigest (md5 (encode sg))
      in schema_name @ ''_'' @ function_name @ ''_'' @ signature_md5)"

subsection \<open>SQL statements\<close>

definition to_sql_statement_create :: "PGFunction \<Rightarrow> string" where
  "to_sql_statement_create self =
     ''CREATE FUNCTION '' @ schema self @ ''.'' @ signature self @ '' '' @ definition' self"

definition to_sql_statement_drop :: "PGFunction \<Rightarrow> string" where
  "to_sql_statement_drop self = ''DROP FUNCTION '' @ schema self @ ''.'' @ signature self"

definition to_sql_statement_create_or_replace :: "PGFunction \<Rightarrow> string" where
  "to_sql_statement_create_or_replace self =
     ''CREATE OR REPLACE FUNCTION '' @ schema self @ ''.'' @ signature self @ '' ''
       @ definition' self"

section \<open>The database connection\<close>

datatype error = AssertionError | AttributeError | NotImplementedError | DatabaseError string

text \<open>
  The database is a state of any type \<open>'db\<close>, and a connection is what the code does with
  it: \<open>execute\<close> runs one statement and gives the next state or the error the database
  raises; \<open>fetch_create_statements\<close> is the catalog query of \<open>get_db_functions\<close> for a
  schema pattern, which reads the state and gives column 3 (\<open>create_statement\<close>) of the
  rows in order.
\<close>

record 'db connection =
  execute :: "string \<Rightarrow> 'db \<Rightarrow> error + 'db"
  fetch_create_statements :: "string \<Rightarrow> 'db \<Rightarrow> error + string list"

text \<open>\<open>for func in db_functions: assert func is not None\<close>\<close>

fun assert_not_none :: "'a option list \<Rightarrow> error + 'a list" where
  "assert_not_none [] = Inr []"
| "assert_not_none (None # fs) = Inl AssertionError"
| "assert_not_none (Some f # fs) =
     (case assert_not_none fs of Inl e \<Rightarrow> Inl e | Inr gs \<Rightarrow> Inr (f # gs))"

definition get_db_functions :: "'db connection \<Rightarrow> string \<Rightarrow> 'db \<Rightarrow> error + PGFunction list" where
  "get_db_functions conn sch db =
     (case fetch_create_statements conn sch db of
        Inl e \<Rightarrow> Inl e
      | Inr rows \<Rightarrow> assert_not_none (map from_sql rows))"

definition get_db_definition :: "'db connection \<Rightarrow> PGFunction \<Rightarrow> 'db \<Rightarrow> error + PGFunction option" where
  "get_db_definition conn self db =
     (case get_db_functions conn (schema self) db of
        Inl e \<Rightarrow> Inl e
      | Inr db_functions \<Rightarrow>
          (let matches = filter (is_equal_signature self) db_functions
           in if length matches = 0 then Inr None else Inr (Some (matches ! 0))))"

section \<open>Operations\<close>

datatype op_class = CreateFunctionOp | DropFunctionOp | ReplaceFunctionOp | RevertFunctionOp

text \<open>
  Modelled from the spec: the base class \<open>ReversibleOp\<close> (module
  \<open>alembic_utils.reversible_op\<close>) is not among the sources. An operation wraps exactly
  one PGFunction as its target, and an operation class that defines no \<open>reverse\<close> has no
  reverse: asking for it is an error.
\<close>

record ReversibleOp =
  cls :: op_class
  target :: PGFunction

definition reverse :: "ReversibleOp \<Rightarrow> error + ReversibleOp" where
  "reverse self =
     (case cls self of
        CreateFunctionOp \<Rightarrow> Inr \<lparr>cls = DropFunctionOp, target = target self\<rparr>
      | DropFunctionOp \<Rightarrow> Inr \<lparr>cls = CreateFunctionOp, target = target self\<rparr>
      | ReplaceFunctionOp \<Rightarrow> Inr \<lparr>cls = RevertFunctionOp, target = target self\<rparr>
      | RevertFunctionOp \<Rightarrow> Inl NotImplementedError)"

text \<open>\<open>Operations.register_operation(name, ...)\<close>: the name under which a class is applied.\<close>

definition register_operation :: "op_class \<Rightarrow> string option" where
  "register_operation c =
     (case c of
        CreateFunctionOp \<Rightarrow> Some ''create_function''
      | DropFunctionOp \<Rightarrow> Some ''drop_function''
      | ReplaceFunctionOp \<Rightarrow> Some ''replace_function''
      | RevertFunctionOp \<Rightarrow> None)"

subsection \<open>get_required_migration_op\<close>

text \<open>
  The result is the operation class to instantiate, or none, together with the database
  the statements leave behind. \<open>is_equal_definition\<close> on a missing scratch entry is an
  AttributeError. \<open>needs_update\<close> is a boolean, so the assertion that it is not None
  never fails.
\<close>

definition get_required_migration_op ::
  "'db connection \<Rightarrow> PGFunction \<Rightarrow> 'db \<Rightarrow> error + (op_class option \<times> 'db)" where
  "get_required_migration_op conn self db =
     (case get_db_definition conn self db of
        Inl e \<Rightarrow> Inl e
      | Inr None \<Rightarrow> Inr (Some CreateFunctionOp, db)
      | Inr (Some db_live) \<Rightarrow>
          (let adjusted_target =
                 \<lparr>schema = ''alembic_autogen'', signature = signature self,
                  definition' = definition' self\<rparr>
           in case execute conn
                     (''create schema if not exists '' @ schema adjusted_target @ '';'') db of
                Inl e \<Rightarrow> Inl e
              | Inr db1 \<Rightarrow>
                 (case execute conn
                         (''CREATE OR REPLACE FUNCTION '' @ schema adjusted_target @ ''.''
                            @ signature adjusted_target @ '' '' @ definition' adjusted_target)
                         db1 of
                    Inl e \<Rightarrow> Inl e
                  | Inr db2 \<Rightarrow>
                     (case get_db_definition conn adjusted_target db2 of
                        Inl e \<Rightarrow> Inl e
                      | Inr None \<Rightarrow> Inl AttributeError
                      | Inr (Some temporary_db_version) \<Rightarrow>
                         (let needs_update =
                                (if is_equal_definition db_live temporary_db_version
                                 then False else True)
                          in case execute conn ''drop schema alembic_autogen cascade;'' db2 of
                               Inl e \<Rightarrow> Inl e
                             | Inr db3 \<Rightarrow>
                                 if needs_update then Inr (Some ReplaceFunctionOp, db3)
                                 else Inr (None, db3))))))"

subsection \<open>Render\<close>

definition nl :: string where
  "nl = [CHR 0x0A]"

definition dq :: string where
  "dq = [CHR 0x22]"

definition render_create_function :: "ReversibleOp \<Rightarrow> string" where
  "render_create_function op =
     (let var_name = to_variable_name (target op)
      in var_name @ '' = PGFunction('' @ nl
         @ ''        schema='' @ dq @ schema (target op) @ dq @ '','' @ nl
         @ ''        signature='' @ dq @ signature (target op) @ dq @ '','' @ nl
         @ ''        definition='' @ dq @ dq @ dq @ definition' (target op) @ dq @ dq @ dq @ nl
         @ ''    )'' @ nl
         @ nl
         @ ''op.create_function('' @ var_name @ '')'' @ nl
         @ ''    '')"

definition render_drop_function :: "ReversibleOp \<Rightarrow> string" where
  "render_drop_function op =
     (let var_name = to_variable_name (target op)
      in var_name @ '' = PGFunction('' @ nl
         @ ''        schema='' @ dq @ schema (target op) @ dq @ '','' @ nl
         @ ''        signature='' @ dq @ signature (target op) @ dq @ '','' @ nl
         @ ''        definition='' @ dq @ ''# Not Used'' @ dq @ nl
         @ ''    )'' @ nl
         @ nl
         @ ''op.drop_function('' @ var_name @ '')'' @ nl
         @ ''    '')"

definition render_replace_function :: "ReversibleOp \<Rightarrow> string" where
  "render_replace_function op =
     (let var_name = to_variable_name (target op)
      in var_name @ '' = PGFunction('' @ nl
         @ ''        schema='' @ dq @ schema (target op) @ dq @ '','' @ nl
         @ ''        signature='' @ dq @ signature (target op) @ dq @ '','' @ nl
         @ ''        definition='' @ dq @ dq @ dq @ definition' (target op) @ dq @ dq @ dq @ nl
         @ ''    )'' @ nl
         @ ''op.replace_function('' @ var_name @ '')'' @ nl
         @ ''    '')"

text \<open>
  The revert renderer looks the target up in the live database; \<open>db_target.schema\<close> on a
  missing entry is an AttributeError.
\<close>

definition render_revert_function :: "'db connection \<Rightarrow> 'db \<Rightarrow> ReversibleOp \<Rightarrow> error + string" where
  "render_revert_function conn db op =
     (case get_db_definition conn (target op) db of
        Inl e \<Rightarrow> Inl e
      | Inr None \<Rightarrow> Inl AttributeError
      | Inr (Some db_target) \<Rightarrow>
          (let var_name = to_variable_name (target op)
           in Inr (var_name @ '' = PGFunction('' @ nl
                @ ''        schema='' @ dq @ schema db_target @ dq @ '','' @ nl
                @ ''        signature='' @ dq @ signature db_target @ dq @ '','' @ nl
                @ ''        definition='' @ dq @ dq @ dq @ definition' db_target @ dq @ dq @ dq @ nl
                @ ''    )'' @ nl
                @ ''op.replace_function('' @ var_name @ '')'' @ nl
                @ ''    '')))"

text \<open>\<open>renderers.dispatch_for(cls)\<close>: the renderer of an operation is chosen by its class.\<close>

definition render :: "'db connection \<Rightarrow> 'db \<Rightarrow> ReversibleOp \<Rightarrow> error + string" where
  "render conn db op =
     (case cls op of
        CreateFunctionOp \<Rightarrow> Inr (render_create_function op)
      | DropFunctionOp \<Rightarrow> Inr (render_drop_function op)
      | ReplaceFunctionOp \<Rightarrow> Inr (render_replace_function op)
      | RevertFunctionOp \<Rightarrow> render_revert_function conn db op)"

section \<open>The specification's whitespace normalisation\<close>

text \<open>
  The comparator of the specification: every maximal run of whitespace in the text is
  replaced by a single space. This definition follows the specification's wording; the
  code's \<open>normalize_whitespace\<close> is compared with it below.
\<close>

function collapse_whitespace_runs :: "string \<Rightarrow> string" where
  "collapse_whitespace_runs [] = []"
| "collapse_whitespace_runs (c # cs) =
     (if isspace c then CHR '' '' # collapse_whitespace_runs (dropWhile isspace cs)
      else c # collapse_whitespace_runs cs)"
  by pat_completeness auto
termination
  by (relation "measure length") (auto simp: length_dropWhile_le less_Suc_eq_le)

section \<open>The snippet shape of the specification\<close>

text \<open>
  The shape the specification gives for a rendered snippet: a named value constructed
  with \<open>schema\<close>, \<open>signature\<close> and \<open>definition\<close> literal fields, followed by a directive
  that invokes an apply-operation call with that value. Between the parts there is
  nothing but whitespace. \<open>dfn\<close> is the definition field's literal with its quotes.
\<close>

definition quoted :: "string \<Rightarrow> string" where
  "quoted s = dq @ s @ dq"

definition triple_quoted :: "string \<Rightarrow> string" where
  "triple_quoted s = dq @ dq @ dq @ s @ dq @ dq @ dq"

definition is_layout :: "string \<Rightarrow> bool" where
  "is_layout g \<longleftrightarrow> list_all isspace g"

definition snippet :: "string \<Rightarrow> string \<Rightarrow> string \<Rightarrow> string \<Rightarrow> string \<Rightarrow> string \<Rightarrow> bool" where
  "snippet txt name sch sg dfn call \<longleftrightarrow>
     (\<exists>g1 g2 g3 g4 g5 g6.
        is_layout g1 \<and> is_layout g2 \<and> is_layout g3 \<and> is_layout g4 \<and> is_layout g5
        \<and> is_layout g6
        \<and> txt = name @ '' = PGFunction('' @ g1
                 @ ''schema='' @ quoted sch @ '','' @ g2
                 @ ''signature='' @ quoted sg @ '','' @ g3
                 @ ''definition='' @ dfn @ g4
                 @ '')'' @ g5
                 @ ''op.'' @ call @ ''('' @ name @ '')'' @ g6)"

section \<open>The statement shape of the specification\<close>

text \<open>
  The input shape the specification gives for the parser: the keywords \<open>create\<close>, \<open>or\<close>,
  \<open>replace\<close>, \<open>function\<close> in any letter case, separated by arbitrary non-empty
  whitespace, then \<open><schema>.<signature>\<close>, whitespace, the keyword \<open>returns\<close>,
  whitespace and the body.
\<close>

definition is_keyword :: "string \<Rightarrow> string \<Rightarrow> bool" where
  "is_keyword kw k \<longleftrightarrow> lower k = kw"

definition is_gap :: "string \<Rightarrow> bool" where
  "is_gap w \<longleftrightarrow> w \<noteq> [] \<and> list_all isspace w"

definition statement_shape :: "string \<Rightarrow> string \<Rightarrow> string \<Rightarrow> string \<Rightarrow> bool" where
  "statement_shape t sch sg d \<longleftrightarrow>
     (\<exists>k1 w1 k2 w2 k3 w3 k4 w4 w5 k5 w6.
        is_keyword ''create'' k1 \<and> is_gap w1 \<and> is_keyword ''or'' k2 \<and> is_gap w2
        \<and> is_keyword ''replace'' k3 \<and> is_gap w3 \<and> is_keyword ''function'' k4 \<and> is_gap w4
        \<and> sch \<noteq> [] \<and> sg \<noteq> [] \<and> is_gap w5 \<and> is_keyword ''returns'' k5 \<and> is_gap w6
        \<and> d \<noteq> []
        \<and> t = k1 @ w1 @ k2 @ w2 @ k3 @ w3 @ k4 @ w4 @ sch @ ''.'' @ sg @ w5 @ k5 @ w6 @ d)"

section \<open>A sample database\<close>

text \<open>
  A small catalog to run the code on: the rows are pairs of a schema name and the
  creation statement of a function in it. The catalog query gives the statements of the
  schema asked for; a statement executed is one of the two schema statements the code
  issues, or a \<open>CREATE OR REPLACE FUNCTION\<close>, which replaces the row of the same schema
  and signature or adds one.
\<close>

type_synonym sample_db = "(string \<times> string) list"

definition sample_fetch :: "string \<Rightarrow> sample_db \<Rightarrow> error + string list" where
  "sample_fetch sch db = Inr (map snd (filter (\<lambda>row. fst row = sch) db))"

definition sample_execute :: "string \<Rightarrow> sample_db \<Rightarrow> error + sample_db" where
  "sample_execute stmt db =
     (if stmt = ''create schema if not exists alembic_autogen;'' then Inr db
      else if stmt = ''drop schema alembic_autogen cascade;''
      then Inr (filter (\<lambda>row. fst row \<noteq> ''alembic_autogen'') db)
      else case from_sql stmt of
             None \<Rightarrow> Inl (DatabaseError ''syntax error'')
           | Some f \<Rightarrow>
               Inr (filter (\<lambda>row. \<not> (fst row = schema f
                                      \<and> (case from_sql (snd row) of
                                            Some g \<Rightarrow> is_equal_signature f g
                                          | None \<Rightarrow> False))) db
                    @ [(schema f, stmt)]))"

definition sample_connection :: "sample_db connection" where
  "sample_connection = \<lparr>execute = sample_execute, fetch_create_statements = sample_fetch\<rparr>"

definition sample_catalog :: sample_db where
  "sample_catalog =
     [(''public'', ''CREATE OR REPLACE FUNCTION public.f() returns int as 1''),
      (''public'', ''CREATE OR REPLACE FUNCTION public.g() returns int as 2'')]"

definition sample_scratch_catalog :: sample_db where
  "sample_scratch_catalog =
     [(''alembic_autogen'', ''CREATE OR REPLACE FUNCTION alembic_autogen.f() returns int as 1''),
      (''alembic_autogen'', ''CREATE OR REPLACE FUNCTION alembic_autogen.g() returns int as 2'')]"

definition sample_f :: "string \<Rightarrow> PGFunction" where
  "sample_f body = \<lparr>schema = ''public'', signature = ''f()'', definition' = body\<rparr>"

section \<open>Whitespace normalisation and the comparator\<close>

lemma rstrip_Nil: "rstrip [] = []"
  by (simp add: rstrip_def)

lemma rstrip_eq_Nil: "rstrip s = [] \<longleftrightarrow> (\<forall>x\<in>set s. isspace x)"
  by (simp add: rstrip_def dropWhile_eq_Nil_conv)

lemma rstrip_Cons: "rstrip (a # x) = (if isspace a \<and> rstrip x = [] then [] else a # rstrip x)"
  by (auto simp: rstrip_def dropWhile_append dropWhile_eq_Nil_conv)

lemma rstrip_append_nows:
  "\<forall>x\<in>set cur. \<not> isspace x \<Longrightarrow> rstrip (cur @ s) = cur @ rstrip s"
  by (induction cur) (auto simp: rstrip_Cons rstrip_Nil)

lemma rstrip_nows: "\<forall>x\<in>set cur. \<not> isspace x \<Longrightarrow> rstrip cur = cur"
  using rstrip_append_nows[of cur "[]"] by (simp add: rstrip_Nil)

lemma collapse_nows:
  "\<forall>x\<in>set cur. \<not> isspace x \<Longrightarrow>
   collapse_whitespace_runs (cur @ s) = cur @ collapse_whitespace_runs s"
  by (induction cur) auto

lemma collapse_nows_id:
  "\<forall>x\<in>set cur. \<not> isspace x \<Longrightarrow> collapse_whitespace_runs cur = cur"
  using collapse_nows[of cur "[]"] by simp

lemma split_from_Nil: "split_from cur s = [] \<longleftrightarrow> cur = [] \<and> (\<forall>x\<in>set s. isspace x)"
  by (induction s arbitrary: cur) auto

lemma join_Cons: "join sep (x # xs) = (if xs = [] then x else x @ sep @ join sep xs)"
  by (cases xs) auto

lemma dropWhile_nows:
  "\<forall>x\<in>set cur. \<not> isspace x \<Longrightarrow>
   dropWhile isspace (cur @ s) = (if cur = [] then dropWhile isspace s else cur @ s)"
  by (cases cur) auto

text \<open>
  The scanner of \<open>split\<close>, with the word \<open>cur\<close> in progress, joined by single spaces, is
  the text with its ends stripped and its runs collapsed.
\<close>

lemma join_split_from:
  "\<forall>x\<in>set cur. \<not> isspace x \<Longrightarrow>
   join '' '' (split_from cur s)
     = collapse_whitespace_runs (dropWhile isspace (rstrip (cur @ s)))"
proof (induction s arbitrary: cur)
  case Nil
  then show ?case
    using dropWhile_nows[of cur "[]"] by (auto simp: rstrip_nows collapse_nows_id)
next
  case (Cons c cs)
  show ?case
  proof (cases "isspace c")
    case False
    with Cons.prems have "\<forall>x\<in>set (cur @ [c]). \<not> isspace x" by auto
    from Cons.IH[OF this] False show ?thesis by simp
  next
    case True
    show ?thesis
    proof (cases "cur = []")
      case True
      with \<open>isspace c\<close> Cons.IH[of "[]"] show ?thesis
        by (auto simp: rstrip_Cons)
    next
      case False
      with \<open>isspace c\<close> Cons.IH[of "[]"] Cons.prems show ?thesis
        by (auto simp: rstrip_Cons rstrip_append_nows dropWhile_nows collapse_nows join_Cons
              split_from_Nil rstrip_eq_Nil rstrip_Nil)
    qed
  qed
qed

lemma normalize_whitespace_eq:
  "normalize_whitespace s '' '' = collapse_whitespace_runs (strip s)"
  using join_split_from[of "[]" s] by (simp add: normalize_whitespace_def split_def strip_def)

text \<open>
  C7, as stated, fails: \<open>is_equal_definition\<close> holds for the definitions \<open>returns int\<close>
  and \<open> returns int\<close> (one leading space), and \<open>is_equal_signature\<close> for the signatures
  \<open>f()\<close> and \<open>f() \<close>, although collapsing every run of whitespace to one space leaves the
  two texts different.
\<close>

theorem C7_leading_whitespace_counterexample:
  "is_equal_definition
     \<lparr>schema = ''public'', signature = ''f()'', definition' = ''returns int''\<rparr>
     \<lparr>schema = ''public'', signature = ''f() '', definition' = '' returns int''\<rparr>
   \<and> collapse_whitespace_runs ''returns int'' \<noteq> collapse_whitespace_runs '' returns int''
   \<and> is_equal_signature
     \<lparr>schema = ''public'', signature = ''f()'', definition' = ''returns int''\<rparr>
     \<lparr>schema = ''public'', signature = ''f() '', definition' = '' returns int''\<rparr>
   \<and> collapse_whitespace_runs ''f()'' \<noteq> collapse_whitespace_runs ''f() ''"
  by code_simp

text \<open>
  C7, amended: \<open>is_equal_definition a b\<close> holds exactly when the definitions are equal
  after leading and trailing whitespace is removed and every remaining maximal run of
  whitespace is collapsed to a single space; \<open>is_equal_signature a b\<close> holds exactly when
  the signatures are equal after the same normalisation and the schemas are equal
  verbatim.
\<close>

theorem C7_comparator_strips_and_collapses:
  "(is_equal_definition a b \<longleftrightarrow>
      collapse_whitespace_runs (strip (definition' a))
        = collapse_whitespace_runs (strip (definition' b)))
   \<and> (is_equal_signature a b \<longleftrightarrow>
      collapse_whitespace_runs (strip (signature a))
        = collapse_whitespace_runs (strip (signature b))
      \<and> schema a = schema b)"
  by (simp add: is_equal_definition_def is_equal_signature_def normalize_whitespace_eq)

theorem C7_comparator_strips_and_collapses_witness:
  "is_equal_definition
     \<lparr>schema = ''public'', signature = ''f()'', definition' = ''returns  int''\<rparr>
     \<lparr>schema = ''Public'', signature = ''f( )'', definition' = '' returns int''\<rparr>
   \<and> collapse_whitespace_runs (strip ''returns  int'') = ''returns int''
   \<and> \<not> is_equal_signature
     \<lparr>schema = ''public'', signature = ''f()'', definition' = ''returns  int''\<rparr>
     \<lparr>schema = ''Public'', signature = ''f()'', definition' = '' returns int''\<rparr>"
proof -
  have "collapse_whitespace_runs (strip ''returns  int'') = ''returns int''"
    and "collapse_whitespace_runs (strip '' returns int'') = ''returns int''"
    by code_simp+
  then show ?thesis
    using C7_comparator_strips_and_collapses
      [of "\<lparr>schema = ''public'', signature = ''f()'', definition' = ''returns  int''\<rparr>"
          "\<lparr>schema = ''Public'', signature = ''f( )'', definition' = '' returns int''\<rparr>"]
      C7_comparator_strips_and_collapses
      [of "\<lparr>schema = ''public'', signature = ''f()'', definition' = ''returns  int''\<rparr>"
          "\<lparr>schema = ''Public'', signature = ''f()'', definition' = '' returns int''\<rparr>"]
    by simp
qed

section \<open>Reversal\<close>

text \<open>
  C3: the reverse of Create(t) is Drop(t), the reverse of Drop(t) is Create(t), so that
  reversing either of them twice gives the operation back; the reverse of Replace(t) is
  Revert(t); Revert has no reverse; and every reverse keeps the target.
\<close>

theorem C3_reverse:
  "reverse \<lparr>cls = CreateFunctionOp, target = t\<rparr> = Inr \<lparr>cls = DropFunctionOp, target = t\<rparr>
   \<and> reverse \<lparr>cls = DropFunctionOp, target = t\<rparr> = Inr \<lparr>cls = CreateFunctionOp, target = t\<rparr>
   \<and> (\<forall>op op'. cls op \<in> {CreateFunctionOp, DropFunctionOp} \<longrightarrow> reverse op = Inr op'
          \<longrightarrow> reverse op' = Inr op)
   \<and> reverse \<lparr>cls = ReplaceFunctionOp, target = t\<rparr> = Inr \<lparr>cls = RevertFunctionOp, target = t\<rparr>
   \<and> reverse \<lparr>cls = RevertFunctionOp, target = t\<rparr> = Inl NotImplementedError
   \<and> (\<forall>op op'. reverse op = Inr op' \<longrightarrow> target op' = target op)"
  by (auto simp: reverse_def split: op_class.splits)

theorem C3_reverse_witness:
  "reverse \<lparr>cls = CreateFunctionOp,
            target = \<lparr>schema = ''public'', signature = ''f()'', definition' = ''returns int''\<rparr>\<rparr>
     = Inr \<lparr>cls = DropFunctionOp,
            target = \<lparr>schema = ''public'', signature = ''f()'', definition' = ''returns int''\<rparr>\<rparr>
   \<and> reverse \<lparr>cls = DropFunctionOp,
            target = \<lparr>schema = ''public'', signature = ''f()'', definition' = ''returns int''\<rparr>\<rparr>
     = Inr \<lparr>cls = CreateFunctionOp,
            target = \<lparr>schema = ''public'', signature = ''f()'', definition' = ''returns int''\<rparr>\<rparr>
   \<and> target \<lparr>cls = DropFunctionOp,
            target = \<lparr>schema = ''public'', signature = ''f()'', definition' = ''returns int''\<rparr>\<rparr>
     = target \<lparr>cls = CreateFunctionOp,
            target = \<lparr>schema = ''public'', signature = ''f()'', definition' = ''returns int''\<rparr>\<rparr>"
proof -
  let ?t = "\<lparr>schema = ''public'', signature = ''f()'', definition' = ''returns int''\<rparr>"
  have r: "reverse \<lparr>cls = CreateFunctionOp, target = ?t\<rparr>
             = Inr \<lparr>cls = DropFunctionOp, target = ?t\<rparr>"
    using C3_reverse[of ?t] by blast
  have c: "cls \<lparr>cls = CreateFunctionOp, target = ?t\<rparr> \<in> {CreateFunctionOp, DropFunctionOp}"
    by simp
  have "reverse \<lparr>cls = DropFunctionOp, target = ?t\<rparr> = Inr \<lparr>cls = CreateFunctionOp, target = ?t\<rparr>"
    using C3_reverse[of ?t] c r by blast
  moreover have "target \<lparr>cls = DropFunctionOp, target = ?t\<rparr>
                   = target \<lparr>cls = CreateFunctionOp, target = ?t\<rparr>"
    using C3_reverse[of ?t] r by blast
  ultimately show ?thesis using r by simp
qed

section \<open>Catalog reader and diff engine\<close>

lemma assert_not_none_map_Some: "assert_not_none (map Some ys) = Inr ys"
  by (induction ys) auto

lemma assert_not_none_Inr_D: "assert_not_none xs = Inr ys \<Longrightarrow> xs = map Some ys"
proof (induction xs arbitrary: ys)
  case Nil
  then show ?case by simp
next
  case (Cons x xs)
  show ?case
  proof (cases x)
    case None
    with Cons.prems show ?thesis by simp
  next
    case (Some f)
    with Cons.prems obtain gs where g: "assert_not_none xs = Inr gs" and y: "ys = f # gs"
      by (auto split: sum.splits)
    from Cons.IH[OF g] y Some show ?thesis by simp
  qed
qed

lemma assert_not_none_Inr: "assert_not_none xs = Inr ys \<longleftrightarrow> xs = map Some ys"
  using assert_not_none_map_Some assert_not_none_Inr_D by blast

lemma assert_not_none_Inl: "assert_not_none xs = Inl e \<longleftrightarrow> e = AssertionError \<and> None \<in> set xs"
proof (induction xs)
  case Nil
  then show ?case by simp
next
  case (Cons x xs)
  then show ?case by (cases x) (auto split: sum.splits)
qed

text \<open>
  C8: \<open>get_db_functions\<close> needs every catalog row to parse. When the catalog query
  returns rows of which one does not parse, the call fails with an AssertionError; it
  does not skip the row. When every row parses, it returns one PGFunction per row, in
  row order: the i-th result is the parse of the i-th row. An error of the query itself
  is passed on.
\<close>

theorem C8_get_db_functions:
  "(\<forall>e. fetch_create_statements conn sch db = Inl e \<longrightarrow> get_db_functions conn sch db = Inl e)
   \<and> (\<forall>rows. fetch_create_statements conn sch db = Inr rows \<longrightarrow>
         ((\<exists>r\<in>set rows. from_sql r = None) \<longrightarrow> get_db_functions conn sch db = Inl AssertionError)
       \<and> ((\<forall>r\<in>set rows. from_sql r \<noteq> None) \<longrightarrow>
            (\<exists>fs. get_db_functions conn sch db = Inr fs \<and> length fs = length rows
                  \<and> (\<forall>i<length rows. from_sql (rows ! i) = Some (fs ! i)))))"
proof (intro conjI allI impI)
  fix e assume "fetch_create_statements conn sch db = Inl e"
  then show "get_db_functions conn sch db = Inl e" by (simp add: get_db_functions_def)
next
  fix rows assume f: "fetch_create_statements conn sch db = Inr rows"
    and "\<exists>r\<in>set rows. from_sql r = None"
  then have "None \<in> set (map from_sql rows)" by force
  then show "get_db_functions conn sch db = Inl AssertionError"
    using f by (simp add: get_db_functions_def assert_not_none_Inl)
next
  fix rows assume f: "fetch_create_statements conn sch db = Inr rows"
    and a: "\<forall>r\<in>set rows. from_sql r \<noteq> None"
  let ?fs = "map (\<lambda>r. the (from_sql r)) rows"
  from a have m: "map from_sql rows = map Some ?fs" by auto
  then have "get_db_functions conn sch db = Inr ?fs"
    using f by (simp add: get_db_functions_def assert_not_none_Inr)
  moreover have "\<forall>i<length rows. from_sql (rows ! i) = Some (?fs ! i)"
    using a by auto
  ultimately show "\<exists>fs. get_db_functions conn sch db = Inr fs \<and> length fs = length rows
                  \<and> (\<forall>i<length rows. from_sql (rows ! i) = Some (fs ! i))"
    by auto
qed

theorem C8_get_db_functions_witness:
  "(\<exists>fs. get_db_functions sample_connection ''public'' sample_catalog = Inr fs
         \<and> length fs = 2
         \<and> from_sql ''CREATE OR REPLACE FUNCTION public.g() returns int as 2'' = Some (fs ! 1))
   \<and> get_db_functions sample_connection ''public''
        [(''public'', ''CREATE OR REPLACE FUNCTION public.f() returns int as 1''),
         (''public'', ''int4pl'')] = Inl AssertionError"
proof -
  let ?rows = "[''CREATE OR REPLACE FUNCTION public.f() returns int as 1'',
                ''CREATE OR REPLACE FUNCTION public.g() returns int as 2'']"
  let ?bad = "[(''public'', ''CREATE OR REPLACE FUNCTION public.f() returns int as 1''),
               (''public'', ''int4pl'')]"
  have f: "fetch_create_statements sample_connection ''public'' sample_catalog = Inr ?rows"
    by code_simp
  have p: "\<forall>r\<in>set ?rows. from_sql r \<noteq> None"
    by code_simp
  have g: "fetch_create_statements sample_connection ''public'' ?bad
             = Inr [''CREATE OR REPLACE FUNCTION public.f() returns int as 1'', ''int4pl'']"
    by code_simp
  have q: "\<exists>r\<in>set [''CREATE OR REPLACE FUNCTION public.f() returns int as 1'', ''int4pl''].
             from_sql r = None"
    by code_simp
  from C8_get_db_functions[of sample_connection "''public''" sample_catalog] f p
  obtain fs where "get_db_functions sample_connection ''public'' sample_catalog = Inr fs"
    "length fs = length ?rows" "\<forall>i<length ?rows. from_sql (?rows ! i) = Some (fs ! i)"
    by blast
  then have "\<exists>fs. get_db_functions sample_connection ''public'' sample_catalog = Inr fs
         \<and> length fs = 2
         \<and> from_sql ''CREATE OR REPLACE FUNCTION public.g() returns int as 2'' = Some (fs ! 1)"
    by force
  moreover from C8_get_db_functions[of sample_connection "''public''" ?bad] g q
  have "get_db_functions sample_connection ''public'' ?bad = Inl AssertionError"
    by blast
  ultimately show ?thesis by blast
qed

lemma first_match:
  assumes "filter P xs \<noteq> []"
  shows "filter P xs ! 0 \<in> set xs \<and> P (filter P xs ! 0)"
proof -
  from assms have "filter P xs ! 0 \<in> set (filter P xs)"
    by (simp del: set_filter)
  then show ?thesis by simp
qed

text \<open>
  C5: \<open>get_db_definition\<close> returns none when no catalog entry of the schema matches the
  desired signature and schema under \<open>is_equal_signature\<close>; when exactly one entry
  matches, it returns that entry; and whenever some entry matches, what it returns is a
  matching catalog entry (the first one in row order).
\<close>

theorem C5_get_db_definition:
  "(\<forall>e. get_db_functions conn (schema self) db = Inl e \<longrightarrow> get_db_definition conn self db = Inl e)
   \<and> (\<forall>entries. get_db_functions conn (schema self) db = Inr entries \<longrightarrow>
        (filter (is_equal_signature self) entries = [] \<longrightarrow> get_db_definition conn self db = Inr None)
      \<and> (\<forall>m. filter (is_equal_signature self) entries = [m] \<longrightarrow>
              get_db_definition conn self db = Inr (Some m))
      \<and> (filter (is_equal_signature self) entries \<noteq> [] \<longrightarrow>
            (\<exists>m. get_db_definition conn self db = Inr (Some m)
                 \<and> m \<in> set entries \<and> is_equal_signature self m
                 \<and> m = hd (filter (is_equal_signature self) entries))))"
proof (intro conjI allI impI)
  fix e assume "get_db_functions conn (schema self) db = Inl e"
  then show "get_db_definition conn self db = Inl e" by (simp add: get_db_definition_def)
next
  fix entries assume "get_db_functions conn (schema self) db = Inr entries"
    and "filter (is_equal_signature self) entries = []"
  then show "get_db_definition conn self db = Inr None" by (simp add: get_db_definition_def)
next
  fix entries m assume "get_db_functions conn (schema self) db = Inr entries"
    and "filter (is_equal_signature self) entries = [m]"
  then show "get_db_definition conn self db = Inr (Some m)" by (simp add: get_db_definition_def)
next
  fix entries assume g: "get_db_functions conn (schema self) db = Inr entries"
    and ne: "filter (is_equal_signature self) entries \<noteq> []"
  let ?ms = "filter (is_equal_signature self) entries"
  from g ne have "get_db_definition conn self db = Inr (Some (?ms ! 0))"
    by (simp add: get_db_definition_def)
  moreover from first_match[OF ne] have "?ms ! 0 \<in> set entries" "is_equal_signature self (?ms ! 0)"
    by simp_all
  moreover from ne have "?ms ! 0 = hd ?ms" by (simp add: hd_conv_nth)
  ultimately show "\<exists>m. get_db_definition conn self db = Inr (Some m)
                 \<and> m \<in> set entries \<and> is_equal_signature self m
                 \<and> m = hd (filter (is_equal_signature self) entries)"
    by simp
qed

theorem C5_get_db_definition_witness:
  "get_db_definition sample_connection (sample_f ''returns int as 3'') sample_catalog
     = Inr (Some \<lparr>schema = ''public'', signature = ''f()'', definition' = ''returns int as 1''\<rparr>)
   \<and> get_db_definition sample_connection
        \<lparr>schema = ''public'', signature = ''h()'', definition' = ''returns int''\<rparr> sample_catalog
     = Inr None"
proof -
  let ?entries = "[\<lparr>schema = ''public'', signature = ''f()'', definition' = ''returns int as 1''\<rparr>,
                   \<lparr>schema = ''public'', signature = ''g()'', definition' = ''returns int as 2''\<rparr>]"
  let ?h = "\<lparr>schema = ''public'', signature = ''h()'', definition' = ''returns int''\<rparr>"
  have e: "get_db_functions sample_connection (schema (sample_f ''returns int as 3'')) sample_catalog
             = Inr ?entries"
    by code_simp
  have m: "filter (is_equal_signature (sample_f ''returns int as 3'')) ?entries
             = [\<lparr>schema = ''public'', signature = ''f()'', definition' = ''returns int as 1''\<rparr>]"
    by code_simp
  have e': "get_db_functions sample_connection (schema ?h) sample_catalog = Inr ?entries"
    by code_simp
  have n: "filter (is_equal_signature ?h) ?entries = []"
    by code_simp
  from C5_get_db_definition[of sample_connection "sample_f ''returns int as 3''" sample_catalog] e m
  have "get_db_definition sample_connection (sample_f ''returns int as 3'') sample_catalog
     = Inr (Some \<lparr>schema = ''public'', signature = ''f()'', definition' = ''returns int as 1''\<rparr>)"
    by blast
  moreover from C5_get_db_definition[of sample_connection ?h sample_catalog] e' n
  have "get_db_definition sample_connection ?h sample_catalog = Inr None"
    by blast
  ultimately show ?thesis by blast
qed

lemma grmo_create:
  "get_db_definition conn self db = Inr None \<Longrightarrow>
   get_required_migration_op conn self db = Inr (Some CreateFunctionOp, db)"
  by (simp add: get_required_migration_op_def)

lemma grmo_live:
  assumes "get_db_definition conn self db = Inr (Some live)"
  shows "get_required_migration_op conn self db =
     (case execute conn ''create schema if not exists alembic_autogen;'' db of
        Inl e \<Rightarrow> Inl e
      | Inr db1 \<Rightarrow>
         (case execute conn (''CREATE OR REPLACE FUNCTION alembic_autogen.'' @ signature self
                               @ '' '' @ definition' self) db1 of
            Inl e \<Rightarrow> Inl e
          | Inr db2 \<Rightarrow>
             (case get_db_definition conn
                     \<lparr>schema = ''alembic_autogen'', signature = signature self,
                      definition' = definition' self\<rparr> db2 of
                Inl e \<Rightarrow> Inl e
              | Inr None \<Rightarrow> Inl AttributeError
              | Inr (Some tmp) \<Rightarrow>
                 (case execute conn ''drop schema alembic_autogen cascade;'' db2 of
                    Inl e \<Rightarrow> Inl e
                  | Inr db3 \<Rightarrow>
                      Inr (if is_equal_definition live tmp then None
                           else Some ReplaceFunctionOp, db3)))))"
  using assms
  by (simp add: get_required_migration_op_def Let_def split: sum.splits option.splits)


text \<open>
  C1: \<open>get_required_migration_op\<close> returns the Create class exactly when the lookup of
  the desired function in its own schema finds nothing. When a live entry is found and
  the scratch schema round trip goes through (the scratch schema is created, the desired
  function is created in it, read back and the scratch schema is dropped), the result is
  none when the live definition and the one read back are equal under
  \<open>is_equal_definition\<close>, and the Replace class otherwise; every return in the presence
  of a live entry is of this kind. No call returns the Drop or the Revert class.
\<close>

theorem C1_required_migration_op:
  "((\<exists>db'. get_required_migration_op conn self db = Inr (Some CreateFunctionOp, db'))
      \<longleftrightarrow> get_db_definition conn self db = Inr None)
   \<and> (\<forall>live db1 db2 db3 tmp.
        get_db_definition conn self db = Inr (Some live) \<longrightarrow>
        execute conn ''create schema if not exists alembic_autogen;'' db = Inr db1 \<longrightarrow>
        execute conn (''CREATE OR REPLACE FUNCTION alembic_autogen.'' @ signature self
                        @ '' '' @ definition' self) db1 = Inr db2 \<longrightarrow>
        get_db_definition conn
          \<lparr>schema = ''alembic_autogen'', signature = signature self,
           definition' = definition' self\<rparr> db2 = Inr (Some tmp) \<longrightarrow>
        execute conn ''drop schema alembic_autogen cascade;'' db2 = Inr db3 \<longrightarrow>
          (is_equal_definition live tmp \<longrightarrow>
             get_required_migration_op conn self db = Inr (None, db3))
        \<and> (\<not> is_equal_definition live tmp \<longrightarrow>
             get_required_migration_op conn self db = Inr (Some ReplaceFunctionOp, db3)))
   \<and> (\<forall>live r db'.
        get_db_definition conn self db = Inr (Some live) \<longrightarrow>
        get_required_migration_op conn self db = Inr (r, db') \<longrightarrow>
          (\<exists>db1 db2 tmp.
             execute conn ''create schema if not exists alembic_autogen;'' db = Inr db1
           \<and> execute conn (''CREATE OR REPLACE FUNCTION alembic_autogen.'' @ signature self
                             @ '' '' @ definition' self) db1 = Inr db2
           \<and> get_db_definition conn
                \<lparr>schema = ''alembic_autogen'', signature = signature self,
                 definition' = definition' self\<rparr> db2 = Inr (Some tmp)
           \<and> (r = None \<longleftrightarrow> is_equal_definition live tmp)
           \<and> (r = Some ReplaceFunctionOp \<longleftrightarrow> \<not> is_equal_definition live tmp)))
   \<and> (\<forall>db'. get_required_migration_op conn self db \<noteq> Inr (Some DropFunctionOp, db')
           \<and> get_required_migration_op conn self db \<noteq> Inr (Some RevertFunctionOp, db'))"
proof (intro conjI allI impI)
  show "(\<exists>db'. get_required_migration_op conn self db = Inr (Some CreateFunctionOp, db'))
          \<longleftrightarrow> get_db_definition conn self db = Inr None"
  proof (cases "get_db_definition conn self db")
    case (Inl e)
    then show ?thesis by (simp add: get_required_migration_op_def)
  next
    case (Inr found)
    show ?thesis
    proof (cases found)
      case None
      with Inr show ?thesis by (simp add: grmo_create)
    next
      case (Some live)
      with Inr show ?thesis
        by (auto simp: grmo_live[of conn self db live] split: sum.splits option.splits if_splits)
    qed
  qed
next
  fix live db1 db2 db3 tmp
  assume "get_db_definition conn self db = Inr (Some live)"
    "execute conn ''create schema if not exists alembic_autogen;'' db = Inr db1"
    "execute conn (''CREATE OR REPLACE FUNCTION alembic_autogen.'' @ signature self
                        @ '' '' @ definition' self) db1 = Inr db2"
    "get_db_definition conn
          \<lparr>schema = ''alembic_autogen'', signature = signature self,
           definition' = definition' self\<rparr> db2 = Inr (Some tmp)"
    "execute conn ''drop schema alembic_autogen cascade;'' db2 = Inr db3"
  then have r: "get_required_migration_op conn self db =
      Inr (if is_equal_definition live tmp then None else Some ReplaceFunctionOp, db3)"
    by (simp add: grmo_live[of conn self db live])
  { assume "is_equal_definition live tmp"
    with r show "get_required_migration_op conn self db = Inr (None, db3)" by simp }
  { assume "\<not> is_equal_definition live tmp"
    with r show "get_required_migration_op conn self db = Inr (Some ReplaceFunctionOp, db3)"
      by simp }
next
  fix live r db'
  assume "get_db_definition conn self db = Inr (Some live)"
    and "get_required_migration_op conn self db = Inr (r, db')"
  then show "\<exists>db1 db2 tmp.
             execute conn ''create schema if not exists alembic_autogen;'' db = Inr db1
           \<and> execute conn (''CREATE OR REPLACE FUNCTION alembic_autogen.'' @ signature self
                             @ '' '' @ definition' self) db1 = Inr db2
           \<and> get_db_definition conn
                \<lparr>schema = ''alembic_autogen'', signature = signature self,
                 definition' = definition' self\<rparr> db2 = Inr (Some tmp)
           \<and> (r = None \<longleftrightarrow> is_equal_definition live tmp)
           \<and> (r = Some ReplaceFunctionOp \<longleftrightarrow> \<not> is_equal_definition live tmp)"
    by (auto simp: grmo_live[of conn self db live] split: sum.splits option.splits if_splits)
next
  fix db'
  show "get_required_migration_op conn self db \<noteq> Inr (Some DropFunctionOp, db')"
    by (auto simp: get_required_migration_op_def Let_def split: sum.splits option.splits)
  show "get_required_migration_op conn self db \<noteq> Inr (Some RevertFunctionOp, db')"
    by (auto simp: get_required_migration_op_def Let_def split: sum.splits option.splits)
qed

theorem C1_required_migration_op_witness:
  "get_required_migration_op sample_connection (sample_f ''returns  int as 1'') sample_catalog
     = Inr (None, sample_catalog)
   \<and> get_required_migration_op sample_connection (sample_f ''returns int as 3'') sample_catalog
     = Inr (Some ReplaceFunctionOp, sample_catalog)
   \<and> get_required_migration_op sample_connection
        \<lparr>schema = ''public'', signature = ''h()'', definition' = ''returns int''\<rparr> sample_catalog
     = Inr (Some CreateFunctionOp, sample_catalog)"
proof -
  let ?live = "\<lparr>schema = ''public'', signature = ''f()'', definition' = ''returns int as 1''\<rparr>"
  let ?h = "\<lparr>schema = ''public'', signature = ''h()'', definition' = ''returns int''\<rparr>"
  let ?A = "sample_f ''returns  int as 1''"
  let ?B = "sample_f ''returns int as 3''"
  let ?dbA = "sample_catalog @ [(''alembic_autogen'',
                 ''CREATE OR REPLACE FUNCTION alembic_autogen.f() returns  int as 1'')]"
  let ?dbB = "sample_catalog @ [(''alembic_autogen'',
                 ''CREATE OR REPLACE FUNCTION alembic_autogen.f() returns int as 3'')]"
  let ?tA = "\<lparr>schema = ''alembic_autogen'', signature = ''f()'', definition' = ''returns int as 1''\<rparr>"
  let ?tB = "\<lparr>schema = ''alembic_autogen'', signature = ''f()'', definition' = ''returns int as 3''\<rparr>"
  have e1: "execute sample_connection ''create schema if not exists alembic_autogen;''
               sample_catalog = Inr sample_catalog"
    by code_simp
  have lA: "get_db_definition sample_connection ?A sample_catalog = Inr (Some ?live)"
    by code_simp
  have e2A: "execute sample_connection
               (''CREATE OR REPLACE FUNCTION alembic_autogen.'' @ signature ?A
                  @ '' '' @ definition' ?A) sample_catalog = Inr ?dbA"
    by code_simp
  have tA: "get_db_definition sample_connection
              \<lparr>schema = ''alembic_autogen'', signature = signature ?A,
               definition' = definition' ?A\<rparr> ?dbA = Inr (Some ?tA)"
    by code_simp
  have e3A: "execute sample_connection ''drop schema alembic_autogen cascade;'' ?dbA
               = Inr sample_catalog"
    by code_simp
  have eqA: "is_equal_definition ?live ?tA"
    by code_simp
  have rA: "get_required_migration_op sample_connection ?A sample_catalog = Inr (None, sample_catalog)"
    using C1_required_migration_op[of sample_connection ?A sample_catalog, THEN conjunct2,
            THEN conjunct1, rule_format, OF lA e1 e2A tA e3A] eqA
    by simp
  have lB: "get_db_definition sample_connection ?B sample_catalog = Inr (Some ?live)"
    by code_simp
  have e2B: "execute sample_connection
               (''CREATE OR REPLACE FUNCTION alembic_autogen.'' @ signature ?B
                  @ '' '' @ definition' ?B) sample_catalog = Inr ?dbB"
    by code_simp
  have tB: "get_db_definition sample_connection
              \<lparr>schema = ''alembic_autogen'', signature = signature ?B,
               definition' = definition' ?B\<rparr> ?dbB = Inr (Some ?tB)"
    by code_simp
  have e3B: "execute sample_connection ''drop schema alembic_autogen cascade;'' ?dbB
               = Inr sample_catalog"
    by code_simp
  have neB: "\<not> is_equal_definition ?live ?tB"
    by code_simp
  have rB: "get_required_migration_op sample_connection ?B sample_catalog
              = Inr (Some ReplaceFunctionOp, sample_catalog)"
    using C1_required_migration_op[of sample_connection ?B sample_catalog, THEN conjunct2,
            THEN conjunct1, rule_format, OF lB e1 e2B tB e3B] neB
    by simp
  have nh: "get_db_definition sample_connection ?h sample_catalog = Inr None"
    by code_simp
  from C1_required_migration_op[of sample_connection ?h sample_catalog, THEN conjunct1] nh
  obtain db' where c: "get_required_migration_op sample_connection ?h sample_catalog
                         = Inr (Some CreateFunctionOp, db')"
    by blast
  have "get_required_migration_op sample_connection ?h sample_catalog
          = Inr (Some CreateFunctionOp, sample_catalog)"
    using c nh by (simp add: get_required_migration_op_def)
  with rA rB show ?thesis by simp
qed

text \<open>
  C9: the call is meant to leave the target schema alone, and the code breaks this when
  the target schema is the scratch schema itself. For a desired function of schema
  \<open>alembic_autogen\<close> with a live counterpart, the call replaces the function in the target
  schema and then drops the whole target schema: the functions that were in it (here \<open>f\<close>
  and the unrelated \<open>g\<close>) are gone after the call, and the statement that drops the
  scratch schema is the one that drops the target schema.
\<close>

theorem C9_target_schema_dropped:
  "get_required_migration_op sample_connection
     \<lparr>schema = ''alembic_autogen'', signature = ''f()'', definition' = ''returns int as 3''\<rparr>
     sample_scratch_catalog = Inr (Some ReplaceFunctionOp, [])
   \<and> fetch_create_statements sample_connection ''alembic_autogen'' sample_scratch_catalog
       = Inr [''CREATE OR REPLACE FUNCTION alembic_autogen.f() returns int as 1'',
              ''CREATE OR REPLACE FUNCTION alembic_autogen.g() returns int as 2'']
   \<and> fetch_create_statements sample_connection ''alembic_autogen'' [] = Inr []
   \<and> ''drop schema '' @ schema \<lparr>schema = ''alembic_autogen'', signature = ''f()'',
                                definition' = ''returns int as 3''\<rparr> @ '' cascade;''
       = ''drop schema alembic_autogen cascade;''"
  by code_simp

text \<open>
  The statements of a call: a call that returns the Create class executes no statement
  and leaves the database as it was; a call that returns none or the Replace class has
  executed exactly three statements, in this order:
  \<open>create schema if not exists alembic_autogen;\<close>, then
  \<open>CREATE OR REPLACE FUNCTION alembic_autogen.<signature> <definition>\<close>, then
  \<open>drop schema alembic_autogen cascade;\<close>. Whatever these three statements leave
  unchanged, the call leaves unchanged.
\<close>

theorem migration_op_statements:
  "(\<forall>r db'. get_required_migration_op conn self db = Inr (r, db') \<longrightarrow>
       (r = Some CreateFunctionOp \<and> db' = db)
     \<or> (r \<noteq> Some CreateFunctionOp
        \<and> (\<exists>db1 db2.
             execute conn ''create schema if not exists alembic_autogen;'' db = Inr db1
           \<and> execute conn (''CREATE OR REPLACE FUNCTION alembic_autogen.'' @ signature self
                             @ '' '' @ definition' self) db1 = Inr db2
           \<and> execute conn ''drop schema alembic_autogen cascade;'' db2 = Inr db')))
   \<and> ((\<forall>stmt d d'.
          stmt \<in> {''create schema if not exists alembic_autogen;'',
                  ''CREATE OR REPLACE FUNCTION alembic_autogen.'' @ signature self
                     @ '' '' @ definition' self,
                  ''drop schema alembic_autogen cascade;''} \<longrightarrow>
          execute conn stmt d = Inr d' \<longrightarrow> observe d' = observe d) \<longrightarrow>
       (\<forall>r db'. get_required_migration_op conn self db = Inr (r, db') \<longrightarrow>
                 observe db' = observe db))"
proof -
  have trace: "(r = Some CreateFunctionOp \<and> db' = db)
     \<or> (r \<noteq> Some CreateFunctionOp
        \<and> (\<exists>db1 db2.
             execute conn ''create schema if not exists alembic_autogen;'' db = Inr db1
           \<and> execute conn (''CREATE OR REPLACE FUNCTION alembic_autogen.'' @ signature self
                             @ '' '' @ definition' self) db1 = Inr db2
           \<and> execute conn ''drop schema alembic_autogen cascade;'' db2 = Inr db'))"
    if "get_required_migration_op conn self db = Inr (r, db')" for r db'
  proof (cases "get_db_definition conn self db")
    case (Inl e)
    with that show ?thesis by (simp add: get_required_migration_op_def)
  next
    case (Inr found)
    show ?thesis
    proof (cases found)
      case None
      with Inr that show ?thesis by (simp add: grmo_create)
    next
      case (Some live)
      with Inr that show ?thesis
        by (auto simp: grmo_live[of conn self db live] split: sum.splits option.splits if_splits)
    qed
  qed
  have frame: "observe db' = observe db"
    if pres: "\<forall>stmt d d'.
          stmt \<in> {''create schema if not exists alembic_autogen;'',
                  ''CREATE OR REPLACE FUNCTION alembic_autogen.'' @ signature self
                     @ '' '' @ definition' self,
                  ''drop schema alembic_autogen cascade;''} \<longrightarrow>
          execute conn stmt d = Inr d' \<longrightarrow> observe d' = observe d"
      and ret: "get_required_migration_op conn self db = Inr (r, db')" for r db'
  proof -
    from trace[OF ret] show ?thesis
    proof
      assume "r = Some CreateFunctionOp \<and> db' = db"
      then show ?thesis by simp
    next
      assume "r \<noteq> Some CreateFunctionOp
        \<and> (\<exists>db1 db2.
             execute conn ''create schema if not exists alembic_autogen;'' db = Inr db1
           \<and> execute conn (''CREATE OR REPLACE FUNCTION alembic_autogen.'' @ signature self
                             @ '' '' @ definition' self) db1 = Inr db2
           \<and> execute conn ''drop schema alembic_autogen cascade;'' db2 = Inr db')"
      then obtain db1 db2 where
        e1: "execute conn ''create schema if not exists alembic_autogen;'' db = Inr db1" and
        e2: "execute conn (''CREATE OR REPLACE FUNCTION alembic_autogen.'' @ signature self
                             @ '' '' @ definition' self) db1 = Inr db2" and
        e3: "execute conn ''drop schema alembic_autogen cascade;'' db2 = Inr db'"
        by blast
      from pres e1 have "observe db1 = observe db" by blast
      moreover from pres e2 have "observe db2 = observe db1" by blast
      moreover from pres e3 have "observe db' = observe db2" by blast
      ultimately show ?thesis by simp
    qed
  qed
  from trace frame show ?thesis by blast
qed

lemma sample_fetch_public_preserved:
  assumes "stmt \<in> {''create schema if not exists alembic_autogen;'',
                  ''CREATE OR REPLACE FUNCTION alembic_autogen.f() returns  int as 1'',
                  ''drop schema alembic_autogen cascade;''}"
    and "sample_execute stmt d = Inr d'"
  shows "sample_fetch ''public'' d' = sample_fetch ''public'' d"
proof -
  have p: "from_sql ''CREATE OR REPLACE FUNCTION alembic_autogen.f() returns  int as 1''
          = Some \<lparr>schema = ''alembic_autogen'', signature = ''f()'', definition' = ''returns int as 1''\<rparr>"
    by code_simp
  have ne: "''CREATE OR REPLACE FUNCTION alembic_autogen.f() returns  int as 1''
              \<noteq> ''create schema if not exists alembic_autogen;''"
       "''CREATE OR REPLACE FUNCTION alembic_autogen.f() returns  int as 1''
              \<noteq> ''drop schema alembic_autogen cascade;''"
       "''drop schema alembic_autogen cascade;'' \<noteq> ''create schema if not exists alembic_autogen;''"
    by simp_all
  have f1: "filter (\<lambda>x. fst x \<noteq> ''alembic_autogen'' \<and> fst x = ''public'') d
             = filter (\<lambda>row. fst row = ''public'') d"
    by (rule filter_cong) auto
  have f2: "filter (\<lambda>x. (fst x = ''alembic_autogen'' \<longrightarrow> Q x) \<and> fst x = ''public'') d
             = filter (\<lambda>row. fst row = ''public'') d" for Q
    by (rule filter_cong) auto
  from assms(1) consider
      "stmt = ''create schema if not exists alembic_autogen;''"
    | "stmt = ''CREATE OR REPLACE FUNCTION alembic_autogen.f() returns  int as 1''"
    | "stmt = ''drop schema alembic_autogen cascade;''"
    by blast
  then show ?thesis
  proof cases
    case 1
    with assms(2) show ?thesis by (simp add: sample_execute_def)
  next
    case 2
    with assms(2) have "d' = filter (\<lambda>row. \<not> (fst row = ''alembic_autogen''
                                      \<and> (case from_sql (snd row) of
                                            Some g \<Rightarrow> is_equal_signature
                                               \<lparr>schema = ''alembic_autogen'', signature = ''f()'', definition' = ''returns int as 1''\<rparr> g
                                          | None \<Rightarrow> False))) d
                    @ [(''alembic_autogen'', stmt)]"
      unfolding sample_execute_def using ne p by (simp only: 2 if_False option.case select_convs) auto
    then show ?thesis by (simp add: sample_fetch_def f2)
  next
    case 3
    with assms(2) have "d' = filter (\<lambda>row. fst row \<noteq> ''alembic_autogen'') d"
      unfolding sample_execute_def using ne by (simp only: 3) auto
    then show ?thesis by (simp add: sample_fetch_def f1)
  qed
qed

theorem migration_op_statements_example:
  "get_required_migration_op sample_connection (sample_f ''returns  int as 1'')
     (sample_catalog @ [(''alembic_autogen'',
        ''CREATE OR REPLACE FUNCTION alembic_autogen.h() returns int as 0'')])
     = Inr (None, sample_catalog)
   \<and> (\<exists>db1 db2.
         execute sample_connection ''create schema if not exists alembic_autogen;''
           (sample_catalog @ [(''alembic_autogen'',
              ''CREATE OR REPLACE FUNCTION alembic_autogen.h() returns int as 0'')]) = Inr db1
       \<and> execute sample_connection
           ''CREATE OR REPLACE FUNCTION alembic_autogen.f() returns  int as 1'' db1 = Inr db2
       \<and> execute sample_connection ''drop schema alembic_autogen cascade;'' db2
           = Inr sample_catalog)
   \<and> sample_fetch ''public'' sample_catalog
       = sample_fetch ''public''
           (sample_catalog @ [(''alembic_autogen'',
              ''CREATE OR REPLACE FUNCTION alembic_autogen.h() returns int as 0'')])"
proof -
  let ?A = "sample_f ''returns  int as 1''"
  let ?start = "sample_catalog @ [(''alembic_autogen'',
                  ''CREATE OR REPLACE FUNCTION alembic_autogen.h() returns int as 0'')]"
  have ret: "get_required_migration_op sample_connection ?A ?start
               = Inr (None, sample_catalog)"
    by code_simp
  have st: "''CREATE OR REPLACE FUNCTION alembic_autogen.'' @ signature ?A @ '' '' @ definition' ?A
              = ''CREATE OR REPLACE FUNCTION alembic_autogen.f() returns  int as 1''"
    by (simp add: sample_f_def)
  have pres: "\<forall>stmt d d'.
          stmt \<in> {''create schema if not exists alembic_autogen;'',
                  ''CREATE OR REPLACE FUNCTION alembic_autogen.'' @ signature ?A
                     @ '' '' @ definition' ?A,
                  ''drop schema alembic_autogen cascade;''} \<longrightarrow>
          execute sample_connection stmt d = Inr d' \<longrightarrow>
          sample_fetch ''public'' d' = sample_fetch ''public'' d"
    unfolding st using sample_fetch_public_preserved by (simp add: sample_connection_def)
  have none: "(None :: op_class option) \<noteq> Some CreateFunctionOp"
    by simp
  from migration_op_statements[of sample_connection ?A ?start "sample_fetch ''public''"]
  have tr: "\<exists>db1 db2.
         execute sample_connection ''create schema if not exists alembic_autogen;''
           ?start = Inr db1
       \<and> execute sample_connection
           (''CREATE OR REPLACE FUNCTION alembic_autogen.'' @ signature ?A
                     @ '' '' @ definition' ?A) db1 = Inr db2
       \<and> execute sample_connection ''drop schema alembic_autogen cascade;'' db2
           = Inr sample_catalog"
    using ret none by blast
  from migration_op_statements[of sample_connection ?A ?start "sample_fetch ''public''"]
  have "sample_fetch ''public'' sample_catalog = sample_fetch ''public'' ?start"
    using pres ret by blast
  with tr ret show ?thesis unfolding st by blast
qed

section \<open>The variable name\<close>

lemma length_hexdigest: "length (hexdigest bs) = 2 * length bs"
  by (induction bs) (auto simp: hexdigest_def)

lemma length_md5: "length (md5 bs) = 16"
  by (simp add: md5_def Let_def le_bytes_def split: prod.splits)

lemma length_hexdigest_md5: "length (hexdigest (md5 bs)) = 32"
  by (simp add: length_hexdigest length_md5)

lemma to_variable_name_eq_iff:
  "to_variable_name a = to_variable_name b \<longleftrightarrow>
     strip (lower (schema a)) @ ''_'' @ lower (strip (split_first CHR ''('' (signature a)))
       = strip (lower (schema b)) @ ''_'' @ lower (strip (split_first CHR ''('' (signature b)))
     \<and> hexdigest (md5 (encode (normalize_whitespace (lower (signature a)) '' '')))
       = hexdigest (md5 (encode (normalize_whitespace (lower (signature b)) '' '')))"
proof -
  let ?ha = "hexdigest (md5 (encode (normalize_whitespace (lower (signature a)) '' '')))"
  let ?hb = "hexdigest (md5 (encode (normalize_whitespace (lower (signature b)) '' '')))"
  let ?pa = "strip (lower (schema a)) @ ''_'' @ lower (strip (split_first CHR ''('' (signature a)))"
  let ?pb = "strip (lower (schema b)) @ ''_'' @ lower (strip (split_first CHR ''('' (signature b)))"
  have a: "to_variable_name a = (?pa @ ''_'') @ ?ha" by (simp add: to_variable_name_def)
  have b: "to_variable_name b = (?pb @ ''_'') @ ?hb" by (simp add: to_variable_name_def)
  have "length ?ha = length ?hb" by (simp add: length_hexdigest_md5)
  then have "(?pa @ ''_'') @ ?ha = (?pb @ ''_'') @ ?hb \<longleftrightarrow> ?pa @ ''_'' = ?pb @ ''_'' \<and> ?ha = ?hb"
    by (rule append_eq_append_conv[OF disjI2])
  then show ?thesis unfolding a b by simp
qed

lemma isspace_lower_char_iff: "isspace (lower_char c) \<longleftrightarrow> isspace c"
proof -
  have "\<forall>c::char. isspace (lower_char c) = isspace c" by code_simp
  then show ?thesis by blast
qed

lemma lower_char_paren: "lower_char c = CHR ''('' \<longleftrightarrow> c = CHR ''(''"
proof -
  have "\<forall>c::char. (lower_char c = CHR ''('') = (c = CHR ''('')" by code_simp
  then show ?thesis by blast
qed

lemma lower_strip: "lower (strip s) = strip (lower s)"
proof -
  have c: "isspace \<circ> lower_char = isspace"
    by (rule ext) (simp add: isspace_lower_char_iff)
  show ?thesis
    by (simp add: lower_def strip_def rstrip_def dropWhile_map rev_map c)
qed

lemma lower_split_first: "lower (split_first CHR ''('' s) = split_first CHR ''('' (lower s)"
proof -
  have c: "(\<lambda>c. c \<noteq> CHR ''('') \<circ> lower_char = (\<lambda>c. c \<noteq> CHR ''('')"
    by (rule ext) (simp add: lower_char_paren)
  show ?thesis
    by (simp add: lower_def split_first_def takeWhile_map c)
qed

lemma function_name_lower:
  "lower (strip (split_first CHR ''('' s)) = strip (split_first CHR ''('' (lower s))"
  by (simp add: lower_strip lower_split_first)

lemma filter_dropWhile_space:
  "filter (\<lambda>c. \<not> isspace c) (dropWhile isspace s) = filter (\<lambda>c. \<not> isspace c) s"
  by (induction s) auto

lemma filter_strip: "filter (\<lambda>c. \<not> isspace c) (strip s) = filter (\<lambda>c. \<not> isspace c) s"
proof -
  have "filter (\<lambda>c. \<not> isspace c) (rstrip s) = filter (\<lambda>c. \<not> isspace c) s"
    unfolding rstrip_def rev_filter[symmetric] filter_dropWhile_space by simp
  then show ?thesis by (simp add: strip_def filter_dropWhile_space)
qed

lemma filter_collapse:
  "filter (\<lambda>c. \<not> isspace c) (collapse_whitespace_runs s) = filter (\<lambda>c. \<not> isspace c) s"
proof (induction s rule: collapse_whitespace_runs.induct)
  case 1
  then show ?case by simp
next
  case (2 c cs)
  have sp: "isspace CHR '' ''" by code_simp
  show ?case
  proof (cases "isspace c")
    case True
    with 2 sp show ?thesis by (simp add: filter_dropWhile_space)
  next
    case False
    with 2 show ?thesis by simp
  qed
qed

lemma filter_normalize:
  "filter (\<lambda>c. \<not> isspace c) (normalize_whitespace s '' '') = filter (\<lambda>c. \<not> isspace c) s"
  by (simp add: normalize_whitespace_eq filter_collapse filter_strip)

lemma filter_split_first:
  "filter (\<lambda>c. \<not> isspace c) (split_first CHR ''('' s)
     = split_first CHR ''('' (filter (\<lambda>c. \<not> isspace c) s)"
proof -
  have p: "\<not> isspace CHR ''(''" by code_simp
  show ?thesis unfolding split_first_def
    by (induction s) (auto simp: p)
qed

text \<open>
  The letters of the function name in the identifier are fixed by the lower-cased,
  whitespace-normalized signature.
\<close>

lemma function_name_letters:
  "filter (\<lambda>c. \<not> isspace c) (lower (strip (split_first CHR ''('' s)))
     = split_first CHR ''('' (filter (\<lambda>c. \<not> isspace c) (normalize_whitespace (lower s) '' ''))"
  by (simp add: function_name_lower filter_strip filter_split_first filter_normalize)

lemma underscore_join_cancel:
  assumes eq: "x @ ''_'' @ f1 = y @ ''_'' @ f2"
    and letters: "filter (\<lambda>c. \<not> isspace c) f1 = filter (\<lambda>c. \<not> isspace c) f2"
  shows "x = y"
proof -
  have u: "\<not> isspace CHR ''_''" by code_simp
  have key: "x' = y'"
    if e: "(x' @ ''_'') = (y' @ ''_'') @ us" and f: "us @ g1 = g2"
      and l: "filter (\<lambda>c. \<not> isspace c) g1 = filter (\<lambda>c. \<not> isspace c) g2"
    for x' y' us g1 g2 :: string
  proof -
    from f l have "filter (\<lambda>c. \<not> isspace c) us = []" by auto
    then have all: "\<forall>c\<in>set us. isspace c" by (auto simp: filter_empty_conv)
    have "us = []"
    proof (rule ccontr)
      assume ne: "us \<noteq> []"
      with e have "last us = CHR ''_''" by (metis append_assoc last_appendR last_snoc)
      moreover from ne have "last us \<in> set us" by simp
      ultimately show False using all u by auto
    qed
    with e show ?thesis by simp
  qed
  from eq have "(x @ ''_'') @ f1 = (y @ ''_'') @ f2" by simp
  then obtain us where
    "(x @ ''_'' = (y @ ''_'') @ us \<and> us @ f1 = f2) \<or> ((x @ ''_'') @ us = y @ ''_'' \<and> f1 = us @ f2)"
    unfolding append_eq_append_conv2 by blast
  then show ?thesis
  proof
    assume "x @ ''_'' = (y @ ''_'') @ us \<and> us @ f1 = f2"
    with key[of x y us f1 f2] letters show ?thesis by simp
  next
    assume "(x @ ''_'') @ us = y @ ''_'' \<and> f1 = us @ f2"
    with key[of y x us f2 f1] letters show ?thesis by simp
  qed
qed

text \<open>
  C4, amended: two PGFunctions with identical schema and identical signature have the
  identical identifier, whatever their definitions. The identifier also stays the same
  when schema and signature change in letter case only, or the schema changes in leading
  or trailing whitespace only. And, unless md5 collides on the two lower-cased,
  whitespace-normalized signatures, the identifier changes whenever the lower-cased,
  stripped schema or the lower-cased, whitespace-normalized signature changes.
\<close>

theorem C4_to_variable_name:
  "(schema a = schema b \<and> signature a = signature b
      \<longrightarrow> to_variable_name a = to_variable_name b)
   \<and> (strip (lower (schema a)) = strip (lower (schema b))
       \<and> lower (signature a) = lower (signature b)
      \<longrightarrow> to_variable_name a = to_variable_name b)
   \<and> ((hexdigest (md5 (encode (normalize_whitespace (lower (signature a)) '' '')))
          = hexdigest (md5 (encode (normalize_whitespace (lower (signature b)) '' '')))
        \<longrightarrow> normalize_whitespace (lower (signature a)) '' ''
              = normalize_whitespace (lower (signature b)) '' '')
      \<longrightarrow> (strip (lower (schema a)) \<noteq> strip (lower (schema b))
           \<or> normalize_whitespace (lower (signature a)) '' ''
               \<noteq> normalize_whitespace (lower (signature b)) '' '')
      \<longrightarrow> to_variable_name a \<noteq> to_variable_name b)"
proof (intro conjI impI)
  assume "schema a = schema b \<and> signature a = signature b"
  then show "to_variable_name a = to_variable_name b"
    by (simp add: to_variable_name_eq_iff)
next
  assume "strip (lower (schema a)) = strip (lower (schema b))
       \<and> lower (signature a) = lower (signature b)"
  then show "to_variable_name a = to_variable_name b"
    by (simp add: to_variable_name_eq_iff function_name_lower)
next
  let ?na = "normalize_whitespace (lower (signature a)) '' ''"
  let ?nb = "normalize_whitespace (lower (signature b)) '' ''"
  let ?fa = "lower (strip (split_first CHR ''('' (signature a)))"
  let ?fb = "lower (strip (split_first CHR ''('' (signature b)))"
  assume inj: "hexdigest (md5 (encode ?na)) = hexdigest (md5 (encode ?nb)) \<longrightarrow> ?na = ?nb"
    and ch: "strip (lower (schema a)) \<noteq> strip (lower (schema b)) \<or> ?na \<noteq> ?nb"
  show "to_variable_name a \<noteq> to_variable_name b"
  proof
    assume "to_variable_name a = to_variable_name b"
    then have p: "strip (lower (schema a)) @ ''_'' @ ?fa = strip (lower (schema b)) @ ''_'' @ ?fb"
      and h: "hexdigest (md5 (encode ?na)) = hexdigest (md5 (encode ?nb))"
      by (simp_all add: to_variable_name_eq_iff)
    from inj h have n: "?na = ?nb" by blast
    then have "filter (\<lambda>c. \<not> isspace c) ?fa = filter (\<lambda>c. \<not> isspace c) ?fb"
      by (simp only: function_name_letters)
    from underscore_join_cancel[OF p this] n ch show False by blast
  qed
qed

theorem C4_to_variable_name_witness:
  "to_variable_name \<lparr>schema = ''public'', signature = ''f(a int)'', definition' = ''returns int''\<rparr>
     = to_variable_name \<lparr>schema = ''public'', signature = ''f(a int)'', definition' = ''returns text''\<rparr>
   \<and> to_variable_name \<lparr>schema = ''Public'', signature = ''F(a INT)'', definition' = ''returns int''\<rparr>
     = to_variable_name \<lparr>schema = ''public '', signature = ''f(a int)'', definition' = ''returns int''\<rparr>
   \<and> to_variable_name \<lparr>schema = ''public'', signature = ''f(a int)'', definition' = ''returns int''\<rparr>
     \<noteq> to_variable_name \<lparr>schema = ''private'', signature = ''f(a int)'', definition' = ''returns int''\<rparr>
   \<and> to_variable_name \<lparr>schema = ''public'', signature = ''f(a int)'', definition' = ''returns int''\<rparr>
     \<noteq> to_variable_name \<lparr>schema = ''public'', signature = ''g()'', definition' = ''returns int''\<rparr>"
proof -
  let ?a = "\<lparr>schema = ''public'', signature = ''f(a int)'', definition' = ''returns int''\<rparr>"
  let ?b = "\<lparr>schema = ''public'', signature = ''f(a int)'', definition' = ''returns text''\<rparr>"
  let ?c = "\<lparr>schema = ''private'', signature = ''f(a int)'', definition' = ''returns int''\<rparr>"
  let ?d = "\<lparr>schema = ''public'', signature = ''g()'', definition' = ''returns int''\<rparr>"
  let ?u = "\<lparr>schema = ''Public'', signature = ''F(a INT)'', definition' = ''returns int''\<rparr>"
  let ?v = "\<lparr>schema = ''public '', signature = ''f(a int)'', definition' = ''returns int''\<rparr>"
  have s: "strip (lower (schema ?a)) \<noteq> strip (lower (schema ?c))"
    by code_simp
  have n: "normalize_whitespace (lower (signature ?a)) '' ''
             \<noteq> normalize_whitespace (lower (signature ?d)) '' ''"
    by code_simp
  have h: "hexdigest (md5 (encode (normalize_whitespace (lower (signature ?a)) '' '')))
        \<noteq> hexdigest (md5 (encode (normalize_whitespace (lower (signature ?d)) '' '')))"
    by code_simp
  have e: "strip (lower (schema ?u)) = strip (lower (schema ?v))"
    "lower (signature ?u) = lower (signature ?v)"
    by code_simp+
  have "to_variable_name ?a = to_variable_name ?b"
    using C4_to_variable_name[of ?a ?b] by simp
  moreover have "to_variable_name ?u = to_variable_name ?v"
    using C4_to_variable_name[of ?u ?v] e by blast
  moreover have "to_variable_name ?a \<noteq> to_variable_name ?c"
    using C4_to_variable_name[of ?a ?c] s by simp
  moreover have "to_variable_name ?a \<noteq> to_variable_name ?d"
    using C4_to_variable_name[of ?a ?d] h n by blast
  ultimately show ?thesis by blast
qed

text \<open>
  C4, as stated, fails in its second half. The identifier is built from the lower-cased,
  stripped schema and the lower-cased signature: two functions whose schema and signature
  differ in letter case only (schema \<open>Public\<close> and \<open>public\<close>, signature \<open>F(a int)\<close> and
  \<open>f(a int)\<close>) have the same identifier although schema and normalized signature both
  changed, and so have two functions whose schemas differ by a trailing space only.
\<close>

theorem C4_letter_case_counterexample:
  "schema \<lparr>schema = ''Public'', signature = ''F(a int)'', definition' = ''returns int''\<rparr>
     \<noteq> schema \<lparr>schema = ''public'', signature = ''f(a int)'', definition' = ''returns int''\<rparr>
   \<and> normalize_whitespace ''F(a int)'' '' '' \<noteq> normalize_whitespace ''f(a int)'' '' ''
   \<and> to_variable_name \<lparr>schema = ''Public'', signature = ''F(a int)'', definition' = ''returns int''\<rparr>
     = to_variable_name \<lparr>schema = ''public'', signature = ''f(a int)'', definition' = ''returns int''\<rparr>
   \<and> lower (schema \<lparr>schema = ''public '', signature = ''f(a int)'', definition' = ''returns int''\<rparr>)
     \<noteq> lower (schema \<lparr>schema = ''public'', signature = ''f(a int)'', definition' = ''returns int''\<rparr>)
   \<and> to_variable_name \<lparr>schema = ''public '', signature = ''f(a int)'', definition' = ''returns int''\<rparr>
     = to_variable_name \<lparr>schema = ''public'', signature = ''f(a int)'', definition' = ''returns int''\<rparr>"
proof -
  have l: "strip (lower ''Public'') = strip (lower ''public'')"
    "strip (lower ''public '') = strip (lower ''public'')"
    "lower ''F(a int)'' = lower ''f(a int)''"
    "lower (strip (split_first CHR ''('' ''F(a int)'')) = lower (strip (split_first CHR ''('' ''f(a int)''))"
    by code_simp+
  have n: "normalize_whitespace ''F(a int)'' '' '' \<noteq> normalize_whitespace ''f(a int)'' '' ''"
    "lower ''public '' \<noteq> lower ''public''"
    by code_simp+
  show ?thesis using n by (simp add: to_variable_name_eq_iff l)
qed

section \<open>Rendering\<close>

lemma get_db_definition_Some:
  assumes "get_db_definition conn self db = Inr (Some m)"
  shows "is_equal_signature self m"
proof -
  from assms obtain entries where
    e: "get_db_functions conn (schema self) db = Inr entries"
    by (auto simp: get_db_definition_def split: sum.splits)
  with assms have ne: "filter (is_equal_signature self) entries \<noteq> []"
    and m: "m = filter (is_equal_signature self) entries ! 0"
    by (auto simp: get_db_definition_def Let_def split: if_splits)
  from first_match[OF ne] m show ?thesis by simp
qed

lemma layout_nl_indent [simp]:
  "is_layout []" "is_layout nl" "is_layout (nl @ nl)"
  "is_layout (nl @ ''        '')" "is_layout (nl @ ''    '')"
  by (simp_all add: is_layout_def nl_def isspace_def)

lemma snippetI:
  assumes "is_layout g1" "is_layout g2" "is_layout g3" "is_layout g4" "is_layout g5" "is_layout g6"
    and "txt = name @ '' = PGFunction('' @ g1
                 @ ''schema='' @ quoted sch @ '','' @ g2
                 @ ''signature='' @ quoted sg @ '','' @ g3
                 @ ''definition='' @ dfn @ g4
                 @ '')'' @ g5
                 @ ''op.'' @ call @ ''('' @ name @ '')'' @ g6"
  shows "snippet txt name sch sg dfn call"
  unfolding snippet_def using assms by blast

lemma render_create_snippet:
  "snippet (render_create_function op) (to_variable_name (target op)) (schema (target op))
     (signature (target op)) (triple_quoted (definition' (target op))) ''create_function''"
  by (rule snippetI[of "nl @ ''        ''" "nl @ ''        ''" "nl @ ''        ''"
                      "nl @ ''    ''" "nl @ nl" "nl @ ''    ''"])
     (simp_all add: render_create_function_def quoted_def triple_quoted_def Let_def)

lemma render_drop_snippet:
  "snippet (render_drop_function op) (to_variable_name (target op)) (schema (target op))
     (signature (target op)) (quoted ''# Not Used'') ''drop_function''"
  by (rule snippetI[of "nl @ ''        ''" "nl @ ''        ''" "nl @ ''        ''"
                      "nl @ ''    ''" "nl @ nl" "nl @ ''    ''"])
     (simp_all add: render_drop_function_def quoted_def triple_quoted_def Let_def)

lemma render_replace_snippet:
  "snippet (render_replace_function op) (to_variable_name (target op)) (schema (target op))
     (signature (target op)) (triple_quoted (definition' (target op))) ''replace_function''"
  by (rule snippetI[of "nl @ ''        ''" "nl @ ''        ''" "nl @ ''        ''"
                      "nl @ ''    ''" "nl" "nl @ ''    ''"])
     (simp_all add: render_replace_function_def quoted_def triple_quoted_def Let_def)

lemma render_revert_snippet:
  assumes "get_db_definition conn (target op) db = Inr (Some live)"
  shows "\<exists>txt. render_revert_function conn db op = Inr txt
           \<and> snippet txt (to_variable_name (target op)) (schema live)
                (signature live) (triple_quoted (definition' live)) ''replace_function''"
proof -
  let ?txt = "to_variable_name (target op) @ '' = PGFunction('' @ nl
                @ ''        schema='' @ dq @ schema live @ dq @ '','' @ nl
                @ ''        signature='' @ dq @ signature live @ dq @ '','' @ nl
                @ ''        definition='' @ dq @ dq @ dq @ definition' live @ dq @ dq @ dq @ nl
                @ ''    )'' @ nl
                @ ''op.replace_function('' @ to_variable_name (target op) @ '')'' @ nl
                @ ''    ''"
  have "render_revert_function conn db op = Inr ?txt"
    using assms by (simp add: render_revert_function_def Let_def)
  moreover have "snippet ?txt (to_variable_name (target op)) (schema live)
                (signature live) (triple_quoted (definition' live)) ''replace_function''"
    by (rule snippetI[of "nl @ ''        ''" "nl @ ''        ''" "nl @ ''        ''"
                      "nl @ ''    ''" "nl" "nl @ ''    ''"])
       (simp_all add: quoted_def triple_quoted_def)
  ultimately show ?thesis by blast
qed

text \<open>
  C2, amended: the snippet rendered for a Create or a Replace operation is a value named
  by the target's variable name, constructed with the target's schema, signature and
  definition as literal fields, followed by the call \<open>op.create_function\<close> or
  \<open>op.replace_function\<close> on that name, the name under which the class is registered. For
  a Drop operation the schema and signature are the target's, the definition field is
  the fixed literal \<open># Not Used\<close>, and the call is \<open>op.drop_function\<close>. For a Revert
  operation the fields are those of the live catalog entry that matches the target (same
  schema, signature equal up to whitespace, the live definition), the name is the
  target's and the call is \<open>op.replace_function\<close>; without a live entry the rendering
  fails with an AttributeError.
\<close>

theorem C2_render:
  "(cls op = CreateFunctionOp \<longrightarrow>
      (\<exists>txt. render conn db op = Inr txt
         \<and> snippet txt (to_variable_name (target op)) (schema (target op))
              (signature (target op)) (triple_quoted (definition' (target op)))
              ''create_function''
         \<and> register_operation (cls op) = Some ''create_function''))
   \<and> (cls op = DropFunctionOp \<longrightarrow>
      (\<exists>txt. render conn db op = Inr txt
         \<and> snippet txt (to_variable_name (target op)) (schema (target op))
              (signature (target op)) (quoted ''# Not Used'') ''drop_function''
         \<and> register_operation (cls op) = Some ''drop_function''))
   \<and> (cls op = ReplaceFunctionOp \<longrightarrow>
      (\<exists>txt. render conn db op = Inr txt
         \<and> snippet txt (to_variable_name (target op)) (schema (target op))
              (signature (target op)) (triple_quoted (definition' (target op)))
              ''replace_function''
         \<and> register_operation (cls op) = Some ''replace_function''))
   \<and> (cls op = RevertFunctionOp \<longrightarrow>
        (\<forall>e. get_db_definition conn (target op) db = Inl e \<longrightarrow> render conn db op = Inl e)
      \<and> (get_db_definition conn (target op) db = Inr None \<longrightarrow>
            render conn db op = Inl AttributeError)
      \<and> (\<forall>live. get_db_definition conn (target op) db = Inr (Some live) \<longrightarrow>
            schema live = schema (target op) \<and> is_equal_signature (target op) live
          \<and> (\<exists>txt. render conn db op = Inr txt
                \<and> snippet txt (to_variable_name (target op)) (schema live)
                     (signature live) (triple_quoted (definition' live))
                     ''replace_function'')))"
proof (intro conjI impI allI)
  assume "cls op = CreateFunctionOp"
  then show "\<exists>txt. render conn db op = Inr txt
         \<and> snippet txt (to_variable_name (target op)) (schema (target op))
              (signature (target op)) (triple_quoted (definition' (target op)))
              ''create_function''
         \<and> register_operation (cls op) = Some ''create_function''"
    using render_create_snippet[of op] by (simp add: render_def register_operation_def)
next
  assume "cls op = DropFunctionOp"
  then show "\<exists>txt. render conn db op = Inr txt
         \<and> snippet txt (to_variable_name (target op)) (schema (target op))
              (signature (target op)) (quoted ''# Not Used'') ''drop_function''
         \<and> register_operation (cls op) = Some ''drop_function''"
    using render_drop_snippet[of op] by (simp add: render_def register_operation_def)
next
  assume "cls op = ReplaceFunctionOp"
  then show "\<exists>txt. render conn db op = Inr txt
         \<and> snippet txt (to_variable_name (target op)) (schema (target op))
              (signature (target op)) (triple_quoted (definition' (target op)))
              ''replace_function''
         \<and> register_operation (cls op) = Some ''replace_function''"
    using render_replace_snippet[of op] by (simp add: render_def register_operation_def)
next
  fix e assume "cls op = RevertFunctionOp" "get_db_definition conn (target op) db = Inl e"
  then show "render conn db op = Inl e"
    by (simp add: render_def render_revert_function_def)
next
  assume "cls op = RevertFunctionOp" "get_db_definition conn (target op) db = Inr None"
  then show "render conn db op = Inl AttributeError"
    by (simp add: render_def render_revert_function_def)
next
  fix live
  assume c: "cls op = RevertFunctionOp"
    and l: "get_db_definition conn (target op) db = Inr (Some live)"
  from get_db_definition_Some[OF l] show "is_equal_signature (target op) live" .
  then show "schema live = schema (target op)" by (simp add: is_equal_signature_def)
  from render_revert_snippet[OF l] c
  show "\<exists>txt. render conn db op = Inr txt
                \<and> snippet txt (to_variable_name (target op)) (schema live)
                     (signature live) (triple_quoted (definition' live))
                     ''replace_function''"
    by (simp add: render_def)
qed


text \<open>
  C2, as stated, fails for Drop and for Revert: the snippet of a Drop operation does not
  contain the target's definition anywhere, and the snippet of a Revert operation holds
  the definition that is live in the database, not the target's.
\<close>

theorem C2_drop_omits_definition_counterexample:
  "render sample_connection sample_catalog
     \<lparr>cls = DropFunctionOp, target = sample_f ''returns int as 1''\<rparr>
     = Inr (render_drop_function \<lparr>cls = DropFunctionOp, target = sample_f ''returns int as 1''\<rparr>)
   \<and> \<not> sublist (definition' (sample_f ''returns int as 1''))
         (render_drop_function \<lparr>cls = DropFunctionOp, target = sample_f ''returns int as 1''\<rparr>)
   \<and> render sample_connection sample_catalog
        \<lparr>cls = RevertFunctionOp, target = sample_f ''returns int as 3''\<rparr>
     = Inr (render_replace_function
              \<lparr>cls = ReplaceFunctionOp, target = sample_f ''returns int as 1''\<rparr>)
   \<and> \<not> sublist (definition' (sample_f ''returns int as 3''))
         (render_replace_function
            \<lparr>cls = ReplaceFunctionOp, target = sample_f ''returns int as 1''\<rparr>)"
  by code_simp

theorem C2_render_witness:
  "(\<exists>txt. render sample_connection sample_catalog
            \<lparr>cls = CreateFunctionOp, target = sample_f ''returns int as 1''\<rparr> = Inr txt
         \<and> snippet txt (to_variable_name (sample_f ''returns int as 1'')) ''public'' ''f()''
              (triple_quoted ''returns int as 1'') ''create_function'')
   \<and> (\<exists>txt. render sample_connection sample_catalog
            \<lparr>cls = DropFunctionOp, target = sample_f ''returns int as 1''\<rparr> = Inr txt
         \<and> snippet txt (to_variable_name (sample_f ''returns int as 1'')) ''public'' ''f()''
              (quoted ''# Not Used'') ''drop_function'')
   \<and> (\<exists>txt. render sample_connection sample_catalog
            \<lparr>cls = ReplaceFunctionOp, target = sample_f ''returns int as 3''\<rparr> = Inr txt
         \<and> snippet txt (to_variable_name (sample_f ''returns int as 3'')) ''public'' ''f()''
              (triple_quoted ''returns int as 3'') ''replace_function'')
   \<and> (\<exists>txt. render sample_connection sample_catalog
            \<lparr>cls = RevertFunctionOp, target = sample_f ''returns int as 3''\<rparr> = Inr txt
         \<and> snippet txt (to_variable_name (sample_f ''returns int as 3'')) ''public'' ''f()''
              (triple_quoted ''returns int as 1'') ''replace_function'')
   \<and> render sample_connection sample_catalog
        \<lparr>cls = RevertFunctionOp,
         target = \<lparr>schema = ''public'', signature = ''h()'', definition' = ''returns int''\<rparr>\<rparr>
       = Inl AttributeError"
proof -
  let ?h = "\<lparr>schema = ''public'', signature = ''h()'', definition' = ''returns int''\<rparr>"
  let ?live = "\<lparr>schema = ''public'', signature = ''f()'', definition' = ''returns int as 1''\<rparr>"
  have f: "schema (sample_f b) = ''public''" "signature (sample_f b) = ''f()''"
    "definition' (sample_f b) = b" for b
    by (simp_all add: sample_f_def)
  have l: "get_db_definition sample_connection (sample_f ''returns int as 3'') sample_catalog
             = Inr (Some ?live)"
    by code_simp
  have n: "get_db_definition sample_connection ?h sample_catalog = Inr None"
    by code_simp
  have c: "\<exists>txt. render sample_connection sample_catalog
            \<lparr>cls = CreateFunctionOp, target = sample_f ''returns int as 1''\<rparr> = Inr txt
         \<and> snippet txt (to_variable_name (sample_f ''returns int as 1'')) ''public'' ''f()''
              (triple_quoted ''returns int as 1'') ''create_function''"
    using C2_render[of "\<lparr>cls = CreateFunctionOp, target = sample_f ''returns int as 1''\<rparr>"
                       sample_connection sample_catalog]
    by (auto simp: f)
  have d: "\<exists>txt. render sample_connection sample_catalog
            \<lparr>cls = DropFunctionOp, target = sample_f ''returns int as 1''\<rparr> = Inr txt
         \<and> snippet txt (to_variable_name (sample_f ''returns int as 1'')) ''public'' ''f()''
              (quoted ''# Not Used'') ''drop_function''"
    using C2_render[of "\<lparr>cls = DropFunctionOp, target = sample_f ''returns int as 1''\<rparr>"
                       sample_connection sample_catalog]
    by (auto simp: f)
  have r: "\<exists>txt. render sample_connection sample_catalog
            \<lparr>cls = ReplaceFunctionOp, target = sample_f ''returns int as 3''\<rparr> = Inr txt
         \<and> snippet txt (to_variable_name (sample_f ''returns int as 3'')) ''public'' ''f()''
              (triple_quoted ''returns int as 3'') ''replace_function''"
    using C2_render[of "\<lparr>cls = ReplaceFunctionOp, target = sample_f ''returns int as 3''\<rparr>"
                       sample_connection sample_catalog]
    by (auto simp: f)
  have v: "\<exists>txt. render sample_connection sample_catalog
            \<lparr>cls = RevertFunctionOp, target = sample_f ''returns int as 3''\<rparr> = Inr txt
         \<and> snippet txt (to_variable_name (sample_f ''returns int as 3'')) ''public'' ''f()''
              (triple_quoted ''returns int as 1'') ''replace_function''"
    using C2_render[of "\<lparr>cls = RevertFunctionOp, target = sample_f ''returns int as 3''\<rparr>"
                       sample_connection sample_catalog] l
    by (auto simp: f)
  have a: "render sample_connection sample_catalog \<lparr>cls = RevertFunctionOp, target = ?h\<rparr>
             = Inl AttributeError"
    using C2_render[of "\<lparr>cls = RevertFunctionOp, target = ?h\<rparr>"
                       sample_connection sample_catalog] n
    by simp
  from c d r v a show ?thesis by blast
qed

section \<open>The parser\<close>

lemma isspace_lower_char: "isspace c \<Longrightarrow> lower_char c = c"
proof -
  have "\<forall>c\<in>set [CHR 0x09, CHR 0x0A, CHR 0x0B, CHR 0x0C, CHR 0x0D, CHR 0x1C, CHR 0x1D,
              CHR 0x1E, CHR 0x1F, CHR 0x20, CHR 0x85, CHR 0xA0]. lower_char c = c"
    by code_simp
  then show "isspace c \<Longrightarrow> lower_char c = c"
    unfolding isspace_def by blast
qed

lemma lower_char_not_space: "lower_char c = x \<Longrightarrow> \<not> isspace x \<Longrightarrow> \<not> isspace c"
  using isspace_lower_char by auto

lemma keyword_letters_not_space:
  "\<forall>x\<in>set ''createorplfunis''. \<not> isspace x"
  by code_simp

lemma keyword_fixed:
  "lower ''create'' = ''create''" "lower ''or'' = ''or''" "lower ''replace'' = ''replace''"
  "lower ''function'' = ''function''" "lower ''returns'' = ''returns''"
  by code_simp+

lemma is_gap_split: "is_gap w \<longleftrightarrow> w \<noteq> [] \<and> (\<forall>c\<in>set w. isspace c)"
  by (simp add: is_gap_def list_all_iff)

lemma match_literal_Some_D:
  "match_literal kw t = Some r \<Longrightarrow> \<exists>k. t = k @ r \<and> lower k = lower kw"
proof (induction kw t rule: match_literal.induct)
  case (1 s)
  then show ?case by (simp add: lower_def)
next
  case (2 p ps)
  then show ?case by simp
next
  case (3 p ps c cs)
  from "3.prems" have eq: "lower_char c = lower_char p" and m: "match_literal ps cs = Some r"
    by (auto split: if_splits)
  from "3.IH"[OF eq m] obtain k where "cs = k @ r" "lower k = lower ps" by blast
  with eq have "c # cs = (c # k) @ r \<and> lower (c # k) = lower (p # ps)"
    by (simp add: lower_def)
  then show ?case by blast
qed

lemma match_literal_complete:
  "lower k = lower kw \<Longrightarrow> match_literal kw (k @ r) = Some r"
proof (induction kw arbitrary: k)
  case Nil
  then show ?case by (simp add: lower_def)
next
  case (Cons p ps)
  then obtain c cs where k: "k = c # cs" and "lower_char c = lower_char p" "lower cs = lower ps"
    by (cases k) (auto simp: lower_def)
  with Cons.IH[of cs] show ?case by simp
qed

lemma match_ws_Some_D: "match_ws t = Some r \<Longrightarrow> \<exists>w. t = w @ r \<and> is_gap w"
proof -
  assume "match_ws t = Some r"
  then have w: "takeWhile isspace t \<noteq> []" and r: "r = dropWhile isspace t"
    by (auto simp: match_ws_def split: if_splits)
  have "t = takeWhile isspace t @ r" using r by simp
  moreover have "is_gap (takeWhile isspace t)"
    using w by (auto simp: is_gap_split dest: set_takeWhileD)
  ultimately show ?thesis by blast
qed

lemma takeWhile_gap: "is_gap w \<Longrightarrow> r = [] \<or> \<not> isspace (hd r) \<Longrightarrow>
  takeWhile isspace (w @ r) = w \<and> dropWhile isspace (w @ r) = r"
  by (cases r) (auto simp: is_gap_split takeWhile_append dropWhile_append)

lemma match_ws_complete:
  "is_gap w \<Longrightarrow> r = [] \<or> \<not> isspace (hd r) \<Longrightarrow> match_ws (w @ r) = Some r"
  using takeWhile_gap[of w r] by (simp add: match_ws_def is_gap_def)

lemma match_tail_Some_D:
  assumes "match_tail t = Some d"
  shows "\<exists>w5 k5 w6. t = w5 @ k5 @ w6 @ d \<and> is_gap w5 \<and> is_keyword ''returns'' k5
            \<and> is_gap w6 \<and> d \<noteq> []"
proof -
  from assms have "\<exists>r. match_ws t = Some r \<and> (\<exists>r2. match_literal ''returns'' r = Some r2
           \<and> (if takeWhile isspace r2 = [] then None
               else if dropWhile isspace r2 \<noteq> [] then Some (dropWhile isspace r2)
               else if 2 \<le> length (takeWhile isspace r2) then Some [last (takeWhile isspace r2)]
               else None) = Some d)"
    unfolding match_tail_def Let_def bind_eq_Some_conv .
  then obtain r r2 where r: "match_ws t = Some r"
    and r2: "match_literal ''returns'' r = Some r2"
    and fin: "(if takeWhile isspace r2 = [] then None
               else if dropWhile isspace r2 \<noteq> [] then Some (dropWhile isspace r2)
               else if 2 \<le> length (takeWhile isspace r2) then Some [last (takeWhile isspace r2)]
               else None) = Some d"
    by blast
  from match_ws_Some_D[OF r] obtain w5 where w5: "t = w5 @ r" "is_gap w5" by blast
  from match_literal_Some_D[OF r2] obtain k5 where k5: "r = k5 @ r2" "lower k5 = lower ''returns''"
    by blast
  then have kw: "is_keyword ''returns'' k5" by (simp add: is_keyword_def keyword_fixed)
  let ?w = "takeWhile isspace r2"
  let ?d = "dropWhile isspace r2"
  from fin have wne: "?w \<noteq> []" by (cases "?w = []") simp_all
  have wsp: "\<forall>c\<in>set ?w. isspace c" by (auto dest: set_takeWhileD)
  show ?thesis
  proof (cases "?d = []")
    case False
    with fin wne have "d = ?d" by simp
    moreover have "r2 = ?w @ ?d" by simp
    moreover have "is_gap ?w" using wne wsp by (simp add: is_gap_split)
    ultimately have "t = w5 @ k5 @ ?w @ d \<and> is_gap w5 \<and> is_keyword ''returns'' k5
            \<and> is_gap ?w \<and> d \<noteq> []"
      using w5 k5 kw False by simp
    then show ?thesis by blast
  next
    case True
    from fin wne True have fin': "(if 2 \<le> length ?w then Some [last ?w] else None) = Some d"
      by (simp only: if_False not_True_eq_False not_not if_True refl)
    then have len: "2 \<le> length ?w" by (cases "2 \<le> length ?w") simp_all
    with fin' have d: "d = [last ?w]" by simp
    have "?w @ ?d = r2" by (rule takeWhile_dropWhile_id)
    with True have "r2 = ?w" by (metis append_Nil2)
    then have r2': "r2 = butlast ?w @ d" using d wne by simp
    have "butlast ?w \<noteq> []" using len by (cases ?w rule: rev_cases) auto
    moreover have "\<forall>c\<in>set (butlast ?w). isspace c" using wsp by (auto dest: in_set_butlastD)
    ultimately have "is_gap (butlast ?w)" by (simp add: is_gap_split)
    with r2' w5 k5 kw d
    have "t = w5 @ k5 @ butlast ?w @ d \<and> is_gap w5 \<and> is_keyword ''returns'' k5
            \<and> is_gap (butlast ?w) \<and> d \<noteq> []"
      by simp
    then show ?thesis by blast
  qed
qed

lemma find_signature_Some_D:
  "find_signature acc t = Some (sg, d) \<Longrightarrow>
   \<exists>sg' tail. sg = acc @ sg' \<and> sg' \<noteq> [] \<and> t = sg' @ tail \<and> match_tail tail = Some d"
proof (induction t arbitrary: acc)
  case Nil
  then show ?case by simp
next
  case (Cons c cs)
  show ?case
  proof (cases "match_tail cs")
    case (Some d')
    with Cons.prems have "sg = acc @ [c]" "d' = d" by auto
    with Some show ?thesis by (intro exI[of _ "[c]"] exI[of _ cs]) simp
  next
    case None
    with Cons.prems have "find_signature (acc @ [c]) cs = Some (sg, d)" by simp
    from Cons.IH[OF this] obtain sg' tail where
      "sg = (acc @ [c]) @ sg'" "sg' \<noteq> []" "cs = sg' @ tail" "match_tail tail = Some d"
      by blast
    then show ?thesis by (intro exI[of _ "c # sg'"] exI[of _ tail]) simp
  qed
qed

lemma find_schema_Some_D:
  "find_schema acc t = Some (sch, sg, d) \<Longrightarrow>
   \<exists>sch' rest. sch = acc @ sch' \<and> sch' \<noteq> [] \<and> t = sch' @ ''.'' @ rest
              \<and> find_signature [] rest = Some (sg, d)"
proof (induction t arbitrary: acc)
  case Nil
  then show ?case by simp
next
  case (Cons c cs)
  show ?case
  proof (cases "\<exists>ds. cs = CHR ''.'' # ds \<and> find_signature [] ds = Some (sg, d)
                       \<and> sch = acc @ [c]")
    case True
    then obtain ds where "cs = CHR ''.'' # ds" "find_signature [] ds = Some (sg, d)"
      "sch = acc @ [c]" by blast
    then show ?thesis by (intro exI[of _ "[c]"] exI[of _ ds]) simp
  next
    case False
    have "find_schema (acc @ [c]) cs = Some (sch, sg, d)"
    proof (cases cs)
      case Nil
      with Cons.prems show ?thesis by simp
    next
      case (Cons x ds)
      show ?thesis
      proof (cases "x = CHR ''.''")
        case dot: True
        show ?thesis
        proof (cases "find_signature [] ds")
          case None
          with dot Cons Cons.prems show ?thesis by simp
        next
          case (Some p)
          obtain sg' d' where p: "p = (sg', d')" by (cases p)
          with Some dot Cons Cons.prems have "sch = acc @ [c]" "sg' = sg" "d' = d" by simp_all
          with Some dot Cons p False show ?thesis by simp
        qed
      next
        case nodot: False
        with Cons Cons.prems show ?thesis by simp
      qed
    qed
    from Cons.IH[OF this] obtain sch' rest where
      "sch = (acc @ [c]) @ sch'" "sch' \<noteq> []" "cs = sch' @ ''.'' @ rest"
      "find_signature [] rest = Some (sg, d)" by blast
    then show ?thesis by (intro exI[of _ "c # sch'"] exI[of _ rest]) simp
  qed
qed

lemma first_some_Some_D: "first_some f xs = Some y \<Longrightarrow> \<exists>x\<in>set xs. f x = Some y"
  by (induction xs) (auto split: option.splits)

lemma first_some_complete: "x \<in> set xs \<Longrightarrow> f x \<noteq> None \<Longrightarrow> first_some f xs \<noteq> None"
  by (induction xs) (auto split: option.splits)

lemma match_header_Some_D:
  assumes "match_header t = Some (sch, sg, d)"
  shows "\<exists>w4 rest. t = w4 @ rest \<and> is_gap w4 \<and> find_schema [] rest = Some (sch, sg, d)"
proof -
  let ?w = "takeWhile isspace t"
  let ?r = "dropWhile isspace t"
  from assms have "first_some (\<lambda>k. find_schema [] (drop k ?w @ ?r)) (rev [1..<Suc (length ?w)])
                     = Some (sch, sg, d)"
    by (simp add: match_header_def Let_def)
  from first_some_Some_D[OF this] obtain k where k: "1 \<le> k" "k \<le> length ?w"
    and f: "find_schema [] (drop k ?w @ ?r) = Some (sch, sg, d)"
    by auto
  have "t = ?w @ ?r" by simp
  then have "t = (take k ?w @ drop k ?w) @ ?r" by (simp only: append_take_drop_id)
  then have "t = take k ?w @ (drop k ?w @ ?r)" by (simp only: append.assoc)
  moreover have "take k ?w \<noteq> []" using k by (cases ?w) auto
  moreover have "\<forall>c\<in>set (take k ?w). isspace c"
    by (auto dest!: in_set_takeD set_takeWhileD)
  ultimately have "t = take k ?w @ (drop k ?w @ ?r) \<and> is_gap (take k ?w)
                     \<and> find_schema [] (drop k ?w @ ?r) = Some (sch, sg, d)"
    using f by (simp add: is_gap_split)
  then show ?thesis by blast
qed

lemma pt_unfold:
  assumes "parse_template t = Some (sch, sg, d)"
  shows "\<exists>s1. match_literal ''create'' t = Some s1 \<and> (\<exists>s2. match_ws s1 = Some s2
       \<and> (\<exists>s3. match_literal ''or'' s2 = Some s3 \<and> (\<exists>s4. match_ws s3 = Some s4
       \<and> (\<exists>s5. match_literal ''replace'' s4 = Some s5 \<and> (\<exists>s6. match_ws s5 = Some s6
       \<and> (\<exists>s7. match_literal ''function'' s6 = Some s7
              \<and> match_header s7 = Some (sch, sg, d)))))))"
  using assms unfolding parse_template_def bind_eq_Some_conv .

lemma match_keyword_D:
  "match_literal kw t = Some r \<Longrightarrow> lower kw = kw \<Longrightarrow> \<exists>k. t = k @ r \<and> is_keyword kw k"
  using match_literal_Some_D[of kw t r] by (simp add: is_keyword_def)

lemma keyword_fixed_1: "lower ''create'' = ''create''" by (rule keyword_fixed)
lemma keyword_fixed_3: "lower ''or'' = ''or''" by (rule keyword_fixed)
lemma keyword_fixed_5: "lower ''replace'' = ''replace''" by (rule keyword_fixed)
lemma keyword_fixed_7: "lower ''function'' = ''function''" by (rule keyword_fixed)
lemma parse_template_Some_D:
  assumes "parse_template t = Some (sch, sg, d)"
  shows "statement_shape t sch sg d"
proof -
  from pt_unfold[OF assms] obtain s1 s2 s3 s4 s5 s6 s7 where
    m: "match_literal ''create'' t = Some s1" "match_ws s1 = Some s2"
       "match_literal ''or'' s2 = Some s3" "match_ws s3 = Some s4"
       "match_literal ''replace'' s4 = Some s5" "match_ws s5 = Some s6"
       "match_literal ''function'' s6 = Some s7" "match_header s7 = Some (sch, sg, d)"
    by (elim exE conjE) (rule that; assumption)
  from match_keyword_D[OF m(1) keyword_fixed_1] obtain k1 where k1: "t = k1 @ s1" "is_keyword ''create'' k1"
    by (elim exE conjE) (rule that; assumption)
  from match_ws_Some_D[OF m(2)] obtain w1 where w1: "s1 = w1 @ s2" "is_gap w1" by blast
  from match_keyword_D[OF m(3) keyword_fixed_3] obtain k2 where k2: "s2 = k2 @ s3" "is_keyword ''or'' k2"
    by (elim exE conjE) (rule that; assumption)
  from match_ws_Some_D[OF m(4)] obtain w2 where w2: "s3 = w2 @ s4" "is_gap w2" by blast
  from match_keyword_D[OF m(5) keyword_fixed_5] obtain k3 where k3: "s4 = k3 @ s5" "is_keyword ''replace'' k3"
    by (elim exE conjE) (rule that; assumption)
  from match_ws_Some_D[OF m(6)] obtain w3 where w3: "s5 = w3 @ s6" "is_gap w3" by blast
  from match_keyword_D[OF m(7) keyword_fixed_7] obtain k4 where k4: "s6 = k4 @ s7" "is_keyword ''function'' k4"
    by (elim exE conjE) (rule that; assumption)
  from match_header_Some_D[OF m(8)] obtain w4 rest where
    w4: "s7 = w4 @ rest" "is_gap w4" and fs: "find_schema [] rest = Some (sch, sg, d)"
    by (elim exE conjE) (rule that; assumption)
  from find_schema_Some_D[OF fs] obtain rest2 where
    sch: "sch \<noteq> []" "rest = sch @ ''.'' @ rest2" and fg: "find_signature [] rest2 = Some (sg, d)"
    by (elim exE conjE) simp
  from find_signature_Some_D[OF fg] obtain tail where
    sg: "sg \<noteq> []" "rest2 = sg @ tail" and mt: "match_tail tail = Some d"
    by (elim exE conjE) simp
  from match_tail_Some_D[OF mt] obtain w5 k5 w6 where
    tl: "tail = w5 @ k5 @ w6 @ d" "is_gap w5" "is_keyword ''returns'' k5" "is_gap w6" "d \<noteq> []"
    by (elim exE conjE) (rule that; assumption)
  have e: "t = k1 @ w1 @ k2 @ w2 @ k3 @ w3 @ k4 @ w4 @ sch @ ''.'' @ sg @ w5 @ k5 @ w6 @ d"
    by (simp only: k1(1) w1(1) k2(1) w2(1) k3(1) w3(1) k4(1) w4(1) sch(2) sg(2) tl(1))
  show ?thesis
    unfolding statement_shape_def
    using k1(2) w1(2) k2(2) w2(2) k3(2) w3(2) k4(2) w4(2) sch(1) sg(1) tl(2-5) e
    by (rule_tac x = k1 in exI, rule_tac x = w1 in exI, rule_tac x = k2 in exI,
        rule_tac x = w2 in exI, rule_tac x = k3 in exI, rule_tac x = w3 in exI,
        rule_tac x = k4 in exI, rule_tac x = w4 in exI, rule_tac x = w5 in exI,
        rule_tac x = k5 in exI, rule_tac x = w6 in exI)
       (intro conjI; assumption)
qed

lemma keyword_head:
  assumes "is_keyword kw k" "kw = x # xs" "\<not> isspace x"
  shows "k @ r = [] \<or> \<not> isspace (hd (k @ r))"
proof -
  from assms(1,2) obtain c cs where k: "k = c # cs" and c: "lower_char c = x"
    by (cases k) (auto simp: is_keyword_def lower_def)
  from lower_char_not_space[OF c assms(3)] k show ?thesis by simp
qed

lemma keyword_match:
  "is_keyword kw k \<Longrightarrow> lower kw = kw \<Longrightarrow> match_literal kw (k @ r) = Some r"
  by (rule match_literal_complete) (simp add: is_keyword_def)

lemma returns_head: "is_keyword ''returns'' k \<Longrightarrow> k @ r = [] \<or> \<not> isspace (hd (k @ r))"
proof (rule keyword_head)
  show "''returns'' = CHR ''r'' # ''eturns''" by simp
  show "\<not> isspace CHR ''r''" by code_simp
qed

lemma match_tail_complete:
  assumes "is_gap w5" "is_keyword ''returns'' k5" "is_gap w6" "d \<noteq> []"
  shows "match_tail (w5 @ k5 @ w6 @ d) \<noteq> None"
proof -
  have a: "match_ws (w5 @ k5 @ w6 @ d) = Some (k5 @ w6 @ d)"
    using match_ws_complete[OF assms(1) returns_head[OF assms(2), of "w6 @ d"]] .
  have b: "match_literal ''returns'' (k5 @ w6 @ d) = Some (w6 @ d)"
    by (rule keyword_match[OF assms(2)]) (rule keyword_fixed)
  let ?w = "takeWhile isspace (w6 @ d)"
  let ?d = "dropWhile isspace (w6 @ d)"
  from assms(3) obtain c cs where w6: "w6 = c # cs" "isspace c"
    by (cases w6) (auto simp: is_gap_split)
  then have wne: "?w \<noteq> []" by simp
  have fin: "(if ?w = [] then None else if ?d \<noteq> [] then Some ?d
              else if 2 \<le> length ?w then Some [last ?w] else None) \<noteq> None"
  proof (cases "?d = []")
    case False
    with wne show ?thesis by simp
  next
    case True
    have "?w @ ?d = w6 @ d" by (rule takeWhile_dropWhile_id)
    with True have "?w = w6 @ d" by (metis append_Nil2)
    then have "2 \<le> length ?w" using w6 assms(4) by (cases d) simp_all
    with wne True show ?thesis by simp
  qed
  show ?thesis
    unfolding match_tail_def Let_def using a b fin by simp
qed

lemma find_signature_complete:
  "sg \<noteq> [] \<Longrightarrow> match_tail tail \<noteq> None \<Longrightarrow> find_signature acc (sg @ tail) \<noteq> None"
proof (induction sg arbitrary: acc)
  case Nil
  then show ?case by simp
next
  case (Cons c cs)
  show ?case
  proof (cases "match_tail (cs @ tail)")
    case (Some d)
    then show ?thesis by simp
  next
    case None
    with Cons.prems(2) have "cs \<noteq> []" by auto
    from Cons.IH[OF this Cons.prems(2), of "acc @ [c]"] None show ?thesis by simp
  qed
qed

lemma find_schema_complete:
  "sch \<noteq> [] \<Longrightarrow> find_signature [] rest \<noteq> None \<Longrightarrow>
   find_schema acc (sch @ ''.'' @ rest) \<noteq> None"
proof (induction sch arbitrary: acc)
  case Nil
  then show ?case by simp
next
  case (Cons c cs)
  show ?case
  proof (cases cs)
    case Nil
    with Cons.prems(2) show ?thesis by (auto split: option.splits)
  next
    case (Cons x xs)
    then have ne: "cs \<noteq> []" by simp
    have ih: "find_schema (acc @ [c]) (cs @ ''.'' @ rest) \<noteq> None"
      by (rule Cons.IH[OF ne Cons.prems(2)])
    obtain y ys where y: "cs @ ''.'' @ rest = y # ys" using Cons by simp
    show ?thesis
    proof (cases "y = CHR ''.''")
      case True
      show ?thesis
      proof (cases "find_signature [] ys")
        case None
        with True y ih show ?thesis by simp
      next
        case (Some p)
        with True y show ?thesis by (cases p) simp
      qed
    next
      case False
      with y ih show ?thesis by simp
    qed
  qed
qed

lemma match_header_complete:
  assumes "is_gap w4" "find_schema [] rest \<noteq> None"
  shows "match_header (w4 @ rest) \<noteq> None"
proof -
  let ?w = "takeWhile isspace (w4 @ rest)"
  let ?r = "dropWhile isspace (w4 @ rest)"
  from assms(1) have all: "\<forall>c\<in>set w4. isspace c" and ne: "w4 \<noteq> []"
    by (simp_all add: is_gap_split)
  from all have w: "?w = w4 @ takeWhile isspace rest" by (simp add: takeWhile_append2)
  from all have r: "?r = dropWhile isspace rest" by (simp add: dropWhile_append2)
  have d: "drop (length w4) ?w @ ?r = rest" unfolding w r by simp
  from ne have "0 < length w4" by simp
  then have k: "length w4 \<in> set (rev [1..<Suc (length ?w)])"
    unfolding w by (auto simp: Suc_le_eq)
  have "first_some (\<lambda>k. find_schema [] (drop k ?w @ ?r)) (rev [1..<Suc (length ?w)]) \<noteq> None"
    by (rule first_some_complete[OF k]) (simp only: d assms(2) not_False_eq_True)
  then show ?thesis by (simp add: match_header_def Let_def)
qed

lemma keyword_heads:
  "is_keyword ''or'' k \<Longrightarrow> k @ r = [] \<or> \<not> isspace (hd (k @ r))"
  "is_keyword ''replace'' k \<Longrightarrow> k @ r = [] \<or> \<not> isspace (hd (k @ r))"
  "is_keyword ''function'' k \<Longrightarrow> k @ r = [] \<or> \<not> isspace (hd (k @ r))"
proof -
  have n: "\<not> isspace CHR ''o''" "\<not> isspace CHR ''r''" "\<not> isspace CHR ''f''" by code_simp+
  show "is_keyword ''or'' k \<Longrightarrow> k @ r = [] \<or> \<not> isspace (hd (k @ r))"
    by (rule keyword_head[of "''or''" k "CHR ''o''" "''r''"]) (simp_all add: n)
  show "is_keyword ''replace'' k \<Longrightarrow> k @ r = [] \<or> \<not> isspace (hd (k @ r))"
    by (rule keyword_head[of "''replace''" k "CHR ''r''" "''eplace''"]) (simp_all add: n)
  show "is_keyword ''function'' k \<Longrightarrow> k @ r = [] \<or> \<not> isspace (hd (k @ r))"
    by (rule keyword_head[of "''function''" k "CHR ''f''" "''unction''"]) (simp_all add: n)
qed

lemma parse_template_header:
  assumes h: "is_keyword ''create'' k1" "is_gap w1" "is_keyword ''or'' k2" "is_gap w2"
       "is_keyword ''replace'' k3" "is_gap w3" "is_keyword ''function'' k4"
  shows "parse_template (k1 @ w1 @ k2 @ w2 @ k3 @ w3 @ k4 @ r7) = match_header r7"
proof -
  let ?r6 = "k4 @ r7"
  let ?r5 = "w3 @ ?r6"
  let ?r4 = "k3 @ ?r5"
  let ?r3 = "w2 @ ?r4"
  let ?r2 = "k2 @ ?r3"
  let ?r1 = "w1 @ ?r2"
  have m1: "match_literal ''create'' (k1 @ ?r1) = Some ?r1"
    by (rule keyword_match[OF h(1)]) (rule keyword_fixed)
  have m2: "match_ws ?r1 = Some ?r2"
    by (rule match_ws_complete[OF h(2) keyword_heads(1)[OF h(3)]])
  have m3: "match_literal ''or'' ?r2 = Some ?r3"
    by (rule keyword_match[OF h(3)]) (rule keyword_fixed)
  have m4: "match_ws ?r3 = Some ?r4"
    by (rule match_ws_complete[OF h(4) keyword_heads(2)[OF h(5)]])
  have m5: "match_literal ''replace'' ?r4 = Some ?r5"
    by (rule keyword_match[OF h(5)]) (rule keyword_fixed)
  have m6: "match_ws ?r5 = Some ?r6"
    by (rule match_ws_complete[OF h(6) keyword_heads(3)[OF h(7)]])
  have m7: "match_literal ''function'' ?r6 = Some r7"
    by (rule keyword_match[OF h(7)]) (rule keyword_fixed)
  show ?thesis
    unfolding parse_template_def by (simp only: m1 m2 m3 m4 m5 m6 m7 Option.bind.simps)
qed

lemma parse_template_complete:
  assumes "statement_shape t sch sg d"
  shows "parse_template t \<noteq> None"
proof -
  from assms obtain k1 w1 k2 w2 k3 w3 k4 w4 w5 k5 w6 where
    h: "is_keyword ''create'' k1" "is_gap w1" "is_keyword ''or'' k2" "is_gap w2"
       "is_keyword ''replace'' k3" "is_gap w3" "is_keyword ''function'' k4" "is_gap w4"
       "sch \<noteq> []" "sg \<noteq> []" "is_gap w5" "is_keyword ''returns'' k5" "is_gap w6" "d \<noteq> []"
    and t: "t = k1 @ w1 @ k2 @ w2 @ k3 @ w3 @ k4 @ w4 @ sch @ ''.'' @ sg @ w5 @ k5 @ w6 @ d"
    unfolding statement_shape_def by (elim exE conjE) (rule that; assumption)
  have "match_tail (w5 @ k5 @ w6 @ d) \<noteq> None"
    by (rule match_tail_complete[OF h(11) h(12) h(13) h(14)])
  from find_signature_complete[OF h(10) this]
  have "find_signature [] (sg @ w5 @ k5 @ w6 @ d) \<noteq> None" .
  from find_schema_complete[OF h(9) this]
  have "find_schema [] (sch @ ''.'' @ sg @ w5 @ k5 @ w6 @ d) \<noteq> None" .
  from match_header_complete[OF h(8) this]
  have "match_header (w4 @ sch @ ''.'' @ sg @ w5 @ k5 @ w6 @ d) \<noteq> None" .
  then show ?thesis
    unfolding t by (simp only: parse_template_header[OF h(1-7)] not_False_eq_True)
qed

lemma create_function_None:
  assumes "is_keyword ''create'' k1" "is_gap w" "is_keyword ''function'' k4"
  shows "parse_template (k1 @ w @ k4 @ rest) = None"
proof -
  have m1: "match_literal ''create'' (k1 @ w @ k4 @ rest) = Some (w @ k4 @ rest)"
    by (rule keyword_match[OF assms(1)]) (rule keyword_fixed)
  have m2: "match_ws (w @ k4 @ rest) = Some (k4 @ rest)"
    by (rule match_ws_complete[OF assms(2) keyword_heads(3)[OF assms(3)]])
  from assms(3) obtain c cs where k4: "k4 = c # cs" and c: "lower_char c = CHR ''f''"
    by (cases k4) (auto simp: is_keyword_def lower_def)
  have o: "lower_char CHR ''o'' = CHR ''o''" by code_simp
  have m3: "match_literal ''or'' (k4 @ rest) = None"
    unfolding k4 by (simp add: c o)
  show ?thesis
    unfolding parse_template_def by (simp only: m1 m2 m3 Option.bind.simps)
qed

lemma from_sql_None_iff: "from_sql sql = None \<longleftrightarrow> parse_template (strip sql) = None"
  by (simp add: from_sql_def split: option.splits)

text \<open>
  C6: \<open>from_sql\<close> returns no result exactly when the stripped input does not have the
  shape \<open>create or replace function <schema>.<signature> ... returns <body>\<close>, with the
  keywords in any letter case and arbitrary whitespace between them; in particular a
  statement that starts with \<open>create\<close>, whitespace and \<open>function\<close>, without
  \<open>or replace\<close>, gives no result. \<open>from_sql\<close> is a total function: it never raises. For
  an input of that shape the result's definition is \<open>returns \<close> followed by the text
  that remains after the \<open>returns\<close> keyword and the whitespace behind it, and its schema
  and signature are the corresponding parts of the input.
\<close>

theorem C6_from_sql:
  "(from_sql sql = None \<longleftrightarrow> \<not> (\<exists>sch sg d. statement_shape (strip sql) sch sg d))
   \<and> (\<forall>k1 w k4 rest.
         is_keyword ''create'' k1 \<and> is_gap w \<and> is_keyword ''function'' k4
         \<and> strip sql = k1 @ w @ k4 @ rest \<longrightarrow> from_sql sql = None)
   \<and> (\<forall>f. from_sql sql = Some f \<longrightarrow>
         (\<exists>d. definition' f = ''returns '' @ d
              \<and> statement_shape (strip sql) (schema f) (signature f) d))"
proof (intro conjI allI impI)
  show "from_sql sql = None \<longleftrightarrow> \<not> (\<exists>sch sg d. statement_shape (strip sql) sch sg d)"
  proof
    assume n: "from_sql sql = None"
    show "\<not> (\<exists>sch sg d. statement_shape (strip sql) sch sg d)"
    proof
      assume "\<exists>sch sg d. statement_shape (strip sql) sch sg d"
      then obtain sch sg d where "statement_shape (strip sql) sch sg d" by blast
      from parse_template_complete[OF this] n show False by (simp add: from_sql_None_iff)
    qed
  next
    assume ns: "\<not> (\<exists>sch sg d. statement_shape (strip sql) sch sg d)"
    show "from_sql sql = None"
    proof (cases "parse_template (strip sql)")
      case None
      then show ?thesis by (simp add: from_sql_None_iff)
    next
      case (Some p)
      obtain sch sg d where "p = (sch, sg, d)" by (cases p)
      with Some parse_template_Some_D[of "strip sql" sch sg d] ns show ?thesis by blast
    qed
  qed
next
  fix k1 w k4 rest
  assume "is_keyword ''create'' k1 \<and> is_gap w \<and> is_keyword ''function'' k4
         \<and> strip sql = k1 @ w @ k4 @ rest"
  then show "from_sql sql = None"
    using create_function_None[of k1 w k4 rest] by (simp add: from_sql_None_iff)
next
  fix f assume f: "from_sql sql = Some f"
  then obtain sch sg d where p: "parse_template (strip sql) = Some (sch, sg, d)"
    and ff: "f = \<lparr>schema = sch, signature = sg, definition' = ''returns '' @ d\<rparr>"
    by (auto simp: from_sql_def split: option.splits)
  from parse_template_Some_D[OF p] ff
  show "\<exists>d. definition' f = ''returns '' @ d
              \<and> statement_shape (strip sql) (schema f) (signature f) d"
    by simp
qed

theorem C6_from_sql_witness:
  "from_sql ''CREATE FUNCTION public.f() returns int'' = None
   \<and> from_sql '' create  OR Replace function public.f() RETURNS  int ''
       = Some \<lparr>schema = ''public'', signature = ''f()'', definition' = ''returns int''\<rparr>
   \<and> statement_shape (strip '' create  OR Replace function public.f() RETURNS  int '')
        ''public'' ''f()'' ''int''"
proof -
  let ?a = "''CREATE FUNCTION public.f() returns int''"
  let ?b = "'' create  OR Replace function public.f() RETURNS  int ''"
  let ?f = "\<lparr>schema = ''public'', signature = ''f()'', definition' = ''returns int''\<rparr>"
  have k: "is_keyword ''create'' ''CREATE''" "is_gap '' ''" "is_keyword ''function'' ''FUNCTION''"
    by code_simp+
  have s: "strip ?a = ''CREATE'' @ '' '' @ ''FUNCTION'' @ '' public.f() returns int''"
    by code_simp
  have a: "from_sql ?a = None"
    using C6_from_sql[of ?a] k s by blast
  have b: "from_sql ?b = Some ?f"
    by code_simp
  from C6_from_sql[of ?b] b
  obtain d where "definition' ?f = ''returns '' @ d"
    "statement_shape (strip ?b) (schema ?f) (signature ?f) d"
    by blast
  then have "statement_shape (strip ?b) ''public'' ''f()'' ''int''" by simp
  with a b show ?thesis by blast
qed

section \<open>Emitting and parsing again\<close>

lemma strip_id:
  assumes "s \<noteq> []" "\<not> isspace (hd s)" "\<not> isspace (last s)"
  shows "strip s = s"
proof -
  from assms(1,3) have "dropWhile isspace (rev s) = rev s"
    by (cases "rev s") (auto simp: last_rev[symmetric] hd_rev)
  then have "rstrip s = s" by (simp add: rstrip_def)
  moreover from assms(1,2) have "dropWhile isspace s = s" by (cases s) auto
  ultimately show ?thesis by (simp add: strip_def)
qed

lemma split_from_skip:
  "isspace w \<Longrightarrow> \<exists>pre. split_from cur (x @ w # s) = pre @ split_from [] s"
proof (induction x arbitrary: cur)
  case Nil
  show ?case
  proof (cases "cur = []")
    case True
    with Nil show ?thesis by (intro exI[of _ "[]"]) simp
  next
    case False
    with Nil show ?thesis by (intro exI[of _ "[cur]"]) simp
  qed
next
  case (Cons c x)
  show ?case
  proof (cases "isspace c")
    case True
    from Cons.IH[OF Cons.prems, of "[]"] obtain pre where
      p: "split_from [] (x @ w # s) = pre @ split_from [] s" by blast
    show ?thesis
    proof (cases "cur = []")
      case e: True
      with True p show ?thesis by (intro exI[of _ pre]) simp
    next
      case ne: False
      with True p show ?thesis by (intro exI[of _ "cur # pre"]) simp
    qed
  next
    case False
    from Cons.IH[OF Cons.prems, of "cur @ [c]"] False show ?thesis by simp
  qed
qed

lemma split_from_word:
  "\<forall>c\<in>set k. \<not> isspace c \<Longrightarrow> split_from cur (k @ y) = split_from (cur @ k) y"
  by (induction k arbitrary: cur) auto

lemma split_from_word_first:
  assumes "k \<noteq> []" "\<forall>c\<in>set k. \<not> isspace c" "y = [] \<or> isspace (hd y)"
  shows "\<exists>post. split_from [] (k @ y) = k # post"
proof (cases y)
  case Nil
  with assms(1) split_from_word[OF assms(2), of "[]" y] show ?thesis by simp
next
  case (Cons c cs)
  with assms(3) have "isspace c" by simp
  with Cons assms(1) split_from_word[OF assms(2), of "[]" y] show ?thesis by simp
qed

lemma word_in_split:
  assumes "isspace w" "k \<noteq> []" "\<forall>c\<in>set k. \<not> isspace c" "y = [] \<or> isspace (hd y)"
  shows "k \<in> set (split (x @ w # k @ y))"
proof -
  from split_from_skip[OF assms(1), of "[]" x "k @ y"] obtain pre where
    "split_from [] (x @ w # k @ y) = pre @ split_from [] (k @ y)" by blast
  moreover from split_from_word_first[OF assms(2-4)] obtain post where
    "split_from [] (k @ y) = k # post" by blast
  ultimately show ?thesis by (simp add: split_def)
qed

lemma returns_no_space: "lower k = ''returns'' \<Longrightarrow> \<forall>c\<in>set k. \<not> isspace c"
proof
  fix c assume l: "lower k = ''returns''" and c: "c \<in> set k"
  then have "lower_char c \<in> set ''returns''" unfolding lower_def by (metis image_eqI set_map)
  moreover have "\<forall>x\<in>set ''returns''. \<not> isspace x" by code_simp
  ultimately have "\<not> isspace (lower_char c)" by blast
  then show "\<not> isspace c" using isspace_lower_char[of c] by auto
qed

lemma word_prefix:
  assumes "k @ r2 = b @ c # rest" "\<forall>x\<in>set k. \<not> isspace x" "isspace c"
  shows "\<exists>b'. b = k @ b' \<and> r2 = b' @ c # rest"
proof -
  from assms(1) obtain us where
    "(k = b @ us \<and> us @ r2 = c # rest) \<or> (k @ us = b \<and> r2 = us @ c # rest)"
    unfolding append_eq_append_conv2 by blast
  then show ?thesis
  proof
    assume a: "k = b @ us \<and> us @ r2 = c # rest"
    show ?thesis
    proof (cases us)
      case Nil
      with a show ?thesis by simp
    next
      case (Cons u us')
      with a have "u = c" "u \<in> set k" by simp_all
      with assms(2,3) show ?thesis by blast
    qed
  next
    assume "k @ us = b \<and> r2 = us @ c # rest"
    then show ?thesis by blast
  qed
qed

lemma no_early_tail:
  assumes sg: "sg = a @ b" "b \<noteq> []"
    and last: "\<not> isspace (last sg)"
    and words: "''returns'' \<notin> set (map lower (split sg))"
    and sp: "isspace c"
  shows "match_tail (b @ c # rest) = None"
proof (rule ccontr)
  assume "match_tail (b @ c # rest) \<noteq> None"
  then obtain d where "match_tail (b @ c # rest) = Some d" by blast
  then have "\<exists>r. match_ws (b @ c # rest) = Some r \<and> (\<exists>r2. match_literal ''returns'' r = Some r2
           \<and> (if takeWhile isspace r2 = [] then None
               else if dropWhile isspace r2 \<noteq> [] then Some (dropWhile isspace r2)
               else if 2 \<le> length (takeWhile isspace r2) then Some [last (takeWhile isspace r2)]
               else None) = Some d)"
    unfolding match_tail_def Let_def bind_eq_Some_conv .
  then obtain r r2 where r: "match_ws (b @ c # rest) = Some r"
    and r2: "match_literal ''returns'' r = Some r2"
    and fin: "(if takeWhile isspace r2 = [] then None
               else if dropWhile isspace r2 \<noteq> [] then Some (dropWhile isspace r2)
               else if 2 \<le> length (takeWhile isspace r2) then Some [last (takeWhile isspace r2)]
               else None) = Some d"
    by blast
  from sg last have lb: "\<not> isspace (last b)" by simp
  with sg(2) have ex: "\<exists>x\<in>set b. \<not> isspace x" using last_in_set by blast
  let ?w = "takeWhile isspace b"
  let ?b' = "dropWhile isspace b"
  from ex have tw: "takeWhile isspace (b @ c # rest) = ?w"
    and dw: "dropWhile isspace (b @ c # rest) = ?b' @ c # rest"
    by (auto simp: takeWhile_append dropWhile_append)
  from r tw dw have wne: "?w \<noteq> []" and rr: "r = ?b' @ c # rest"
    by (auto simp: match_ws_def split: if_splits)
  from match_literal_Some_D[OF r2] obtain k where k: "r = k @ r2" "lower k = ''returns''"
    by (auto simp: keyword_fixed)
  have kns: "\<forall>x\<in>set k. \<not> isspace x" by (rule returns_no_space[OF k(2)])
  from k(1) rr have "k @ r2 = ?b' @ c # rest" by simp
  from word_prefix[OF this kns sp] obtain b'' where b'': "?b' = k @ b''" "r2 = b'' @ c # rest"
    by blast
  from fin have "takeWhile isspace r2 \<noteq> []" by (cases "takeWhile isspace r2 = []") simp_all
  then have "isspace (hd r2)" by (cases r2) (auto split: if_splits)
  with b''(2) have y: "b'' = [] \<or> isspace (hd b'')" by (cases b'') simp_all
  from k(2) have kne: "k \<noteq> []" by (auto simp: lower_def)
  have wsp: "\<forall>x\<in>set ?w. isspace x" by (auto dest: set_takeWhileD)
  from wne obtain ws w where w: "?w = ws @ [w]" by (cases ?w rule: rev_cases) auto
  with wsp have "isspace w" by simp
  have "b = ?w @ ?b'" by simp
  with w b''(1) sg(1) have "sg = (a @ ws) @ w # k @ b''" by simp
  with word_in_split[OF \<open>isspace w\<close> kne kns y, of "a @ ws"] have "k \<in> set (split sg)" by simp
  then have "lower k \<in> set (map lower (split sg))" by simp
  with k(2) words show False by simp
qed

lemma find_signature_exact:
  "sg \<noteq> [] \<Longrightarrow>
   (\<forall>a b. sg = a @ b \<and> a \<noteq> [] \<and> b \<noteq> [] \<longrightarrow> match_tail (b @ tail) = None) \<Longrightarrow>
   match_tail tail = Some d \<Longrightarrow>
   find_signature acc (sg @ tail) = Some (acc @ sg, d)"
proof (induction sg arbitrary: acc)
  case Nil
  then show ?case by simp
next
  case (Cons c cs)
  show ?case
  proof (cases "cs = []")
    case True
    with Cons.prems(3) show ?thesis by simp
  next
    case False
    from Cons.prems(2) False have n: "match_tail (cs @ tail) = None"
      by (metis append_Cons append_Nil not_Cons_self2)
    have "\<forall>a b. cs = a @ b \<and> a \<noteq> [] \<and> b \<noteq> [] \<longrightarrow> match_tail (b @ tail) = None"
    proof (intro allI impI)
      fix a b assume "cs = a @ b \<and> a \<noteq> [] \<and> b \<noteq> []"
      then have "c # cs = (c # a) @ b \<and> c # a \<noteq> [] \<and> b \<noteq> []" by simp
      with Cons.prems(2) show "match_tail (b @ tail) = None" by blast
    qed
    from Cons.IH[OF False this Cons.prems(3), of "acc @ [c]"] n show ?thesis by simp
  qed
qed

lemma find_schema_exact:
  "sch \<noteq> [] \<Longrightarrow> CHR ''.'' \<notin> set sch \<Longrightarrow> find_signature [] rest = Some (sg, d) \<Longrightarrow>
   find_schema acc (sch @ ''.'' @ rest) = Some (acc @ sch, sg, d)"
proof (induction sch arbitrary: acc)
  case Nil
  then show ?case by simp
next
  case (Cons c cs)
  show ?case
  proof (cases cs)
    case Nil
    with Cons.prems(3) show ?thesis by simp
  next
    case (Cons x xs)
    with Cons.prems(2) have x: "x \<noteq> CHR ''.''" and nd: "CHR ''.'' \<notin> set cs" by auto
    from Cons have ne: "cs \<noteq> []" by simp
    from Cons.IH[OF ne nd Cons.prems(3), of "acc @ [c]"] Cons x show ?thesis by simp
  qed
qed

lemma match_header_exact:
  assumes "sch \<noteq> []" "\<not> isspace (hd sch)"
  shows "match_header ('' '' @ sch @ rest) = find_schema [] (sch @ rest)"
proof -
  from assms obtain c cs where s: "sch = c # cs" "\<not> isspace c" by (cases sch) auto
  have sp: "isspace CHR '' ''" by code_simp
  have w: "takeWhile isspace ('' '' @ sch @ rest) = '' ''"
    and r: "dropWhile isspace ('' '' @ sch @ rest) = sch @ rest"
    using s sp by simp_all
  show ?thesis
    unfolding match_header_def Let_def w r by (simp split: option.splits)
qed

lemma match_tail_exact:
  assumes "d \<noteq> []" "\<not> isspace (hd d)"
  shows "match_tail ('' '' @ ''returns '' @ d) = Some d"
proof -
  have sp: "isspace CHR '' ''" "\<not> isspace CHR ''r''" "is_gap '' ''" by code_simp+
  have a: "match_ws ('' '' @ ''returns '' @ d) = Some (''returns '' @ d)"
    by (rule match_ws_complete[OF sp(3)]) (simp add: sp)
  have b: "match_literal ''returns'' (''returns'' @ '' '' @ d) = Some ('' '' @ d)"
    by (rule match_literal_complete) simp
  from assms obtain c cs where d: "d = c # cs" "\<not> isspace c" by (cases d) auto
  have w: "takeWhile isspace ('' '' @ d) = '' ''" and r: "dropWhile isspace ('' '' @ d) = d"
    using d sp by simp_all
  have b': "match_literal ''returns'' (''returns '' @ d) = Some ('' '' @ d)"
    using b by simp
  show ?thesis
    unfolding match_tail_def Let_def by (simp only: a b' Option.bind.simps w r) (simp add: assms)
qed

lemma statement_keywords:
  "is_keyword ''create'' ''CREATE''" "is_keyword ''or'' ''OR''" "is_keyword ''replace'' ''REPLACE''"
  "is_keyword ''function'' ''FUNCTION''" "is_gap '' ''"
  by code_simp+

text \<open>
  C10, amended: for every PGFunction whose schema is non-empty and contains no dot and no
  whitespace, whose signature is non-empty, does not end with whitespace and does not
  contain the whitespace-delimited word \<open>returns\<close> in any letter case, and whose
  definition is \<open>returns \<close> followed by a non-empty text that neither starts nor ends
  with whitespace, parsing the create-or-replace statement of the function succeeds and
  gives the function back: the same schema, signature and definition.
\<close>

theorem C10_round_trip:
  assumes "schema f \<noteq> []" and "\<forall>c\<in>set (schema f). c \<noteq> CHR ''.'' \<and> \<not> isspace c"
    and "signature f \<noteq> []" and "\<not> isspace (last (signature f))"
    and "''returns'' \<notin> set (map lower (split (signature f)))"
    and "definition' f = ''returns '' @ d" and "d \<noteq> []"
    and "\<not> isspace (hd d)" and "\<not> isspace (last d)"
  shows "from_sql (to_sql_statement_create_or_replace f) = Some f"
proof -
  let ?sch = "schema f" and ?sg = "signature f"
  let ?tail = "'' '' @ ''returns '' @ d"
  let ?stmt = "''CREATE OR REPLACE FUNCTION '' @ ?sch @ ''.'' @ ?sg @ ?tail"
  have stmt: "to_sql_statement_create_or_replace f = ?stmt"
    by (simp add: to_sql_statement_create_or_replace_def assms(6))
  have sp: "isspace CHR '' ''" "\<not> isspace CHR ''C''" by code_simp+
  have "last ?stmt = last d" using assms(7) by simp
  then have "strip ?stmt = ?stmt"
    using assms(9) sp by (intro strip_id) simp_all
  moreover have "?stmt = ''CREATE'' @ '' '' @ ''OR'' @ '' '' @ ''REPLACE'' @ '' '' @ ''FUNCTION''
                   @ ('' '' @ ?sch @ ''.'' @ ?sg @ ?tail)"
    by simp
  ultimately have p1: "parse_template (strip ?stmt)
                         = match_header ('' '' @ ?sch @ ''.'' @ ?sg @ ?tail)"
    using parse_template_header[OF statement_keywords(1) statement_keywords(5)
            statement_keywords(2) statement_keywords(5) statement_keywords(3)
            statement_keywords(5) statement_keywords(4),
            of "'' '' @ ?sch @ ''.'' @ ?sg @ ?tail"]
    by simp
  from assms(1,2) have hs: "\<not> isspace (hd ?sch)" by (cases ?sch) auto
  have p2: "match_header ('' '' @ ?sch @ ''.'' @ ?sg @ ?tail)
              = find_schema [] (?sch @ ''.'' @ ?sg @ ?tail)"
    by (rule match_header_exact[OF assms(1) hs])
  have mt: "match_tail ?tail = Some d"
    by (rule match_tail_exact[OF assms(7,8)])
  have early: "\<forall>a b. ?sg = a @ b \<and> a \<noteq> [] \<and> b \<noteq> [] \<longrightarrow> match_tail (b @ ?tail) = None"
  proof (intro allI impI)
    fix a b assume "?sg = a @ b \<and> a \<noteq> [] \<and> b \<noteq> []"
    then have "?sg = a @ b" "b \<noteq> []" by simp_all
    from no_early_tail[OF this assms(4,5) sp(1), of "''returns '' @ d"]
    show "match_tail (b @ ?tail) = None" by simp
  qed
  have p3: "find_signature [] (?sg @ ?tail) = Some (?sg, d)"
    using find_signature_exact[OF assms(3) early mt, of "[]"] by simp
  from assms(2) have nd: "CHR ''.'' \<notin> set ?sch" by blast
  have p4: "find_schema [] (?sch @ ''.'' @ ?sg @ ?tail) = Some (?sch, ?sg, d)"
    using find_schema_exact[OF assms(1) nd p3, of "[]"] by simp
  have "parse_template (strip ?stmt) = Some (?sch, ?sg, d)"
    by (simp only: p1 p2 p4)
  then have "from_sql ?stmt = Some \<lparr>schema = ?sch, signature = ?sg, definition' = ''returns '' @ d\<rparr>"
    by (simp add: from_sql_def)
  then show ?thesis unfolding stmt using assms(6) by simp
qed

theorem C10_round_trip_witness:
  "from_sql (to_sql_statement_create_or_replace
      \<lparr>schema = ''public'', signature = ''to_upper(some_text text)'',
       definition' = ''returns text as $$ select upper(some_text) $$ language sql''\<rparr>)
   = Some \<lparr>schema = ''public'', signature = ''to_upper(some_text text)'',
       definition' = ''returns text as $$ select upper(some_text) $$ language sql''\<rparr>"
proof -
  let ?f = "\<lparr>schema = ''public'', signature = ''to_upper(some_text text)'',
       definition' = ''returns text as $$ select upper(some_text) $$ language sql''\<rparr>"
  let ?d = "''text as $$ select upper(some_text) $$ language sql''"
  have h: "schema ?f \<noteq> []" "\<forall>c\<in>set (schema ?f). c \<noteq> CHR ''.'' \<and> \<not> isspace c"
    "signature ?f \<noteq> []" "\<not> isspace (last (signature ?f))"
    "''returns'' \<notin> set (map lower (split (signature ?f)))"
    "definition' ?f = ''returns '' @ ?d" "?d \<noteq> []"
    "\<not> isspace (hd ?d)" "\<not> isspace (last ?d)"
    by code_simp+
  show ?thesis by (rule C10_round_trip[OF h])
qed

text \<open>
  C10, as stated, fails. Each of the following functions satisfies the hypotheses of the
  claim. A signature that ends with whitespace (\<open>f() \<close>) comes back without it; a
  definition whose text starts with whitespace (\<open>returns  int\<close>) comes back with one
  space; a signature that ends with the word \<open>RETURNS\<close> in capitals is cut before it,
  since the keyword is matched in any letter case; and a definition whose text is
  whitespace only does not parse at all.
\<close>

theorem C10_whitespace_and_case_counterexample:
  "(schema \<lparr>schema = ''public'', signature = ''f() '', definition' = ''returns int''\<rparr> \<noteq> []
    \<and> CHR ''.'' \<notin> set ''public'' \<and> \<not> list_ex isspace ''public''
    \<and> ''f() '' \<noteq> [] \<and> ''returns'' \<notin> set (split ''f() '')
    \<and> ''returns int'' = ''returns '' @ ''int'' \<and> ''int'' \<noteq> [])
   \<and> from_sql (to_sql_statement_create_or_replace
        \<lparr>schema = ''public'', signature = ''f() '', definition' = ''returns int''\<rparr>)
      = Some \<lparr>schema = ''public'', signature = ''f()'', definition' = ''returns int''\<rparr>
   \<and> (''f()'' \<noteq> [] \<and> ''returns'' \<notin> set (split ''f()'')
      \<and> ''returns  int'' = ''returns '' @ '' int'' \<and> '' int'' \<noteq> [])
   \<and> from_sql (to_sql_statement_create_or_replace
        \<lparr>schema = ''public'', signature = ''f()'', definition' = ''returns  int''\<rparr>)
      = Some \<lparr>schema = ''public'', signature = ''f()'', definition' = ''returns int''\<rparr>
   \<and> (''f() RETURNS'' \<noteq> [] \<and> ''returns'' \<notin> set (split ''f() RETURNS''))
   \<and> from_sql (to_sql_statement_create_or_replace
        \<lparr>schema = ''public'', signature = ''f() RETURNS'', definition' = ''returns int''\<rparr>)
      = Some \<lparr>schema = ''public'', signature = ''f()'', definition' = ''returns returns int''\<rparr>
   \<and> (''returns  '' = ''returns '' @ '' '' \<and> '' '' \<noteq> [])
   \<and> from_sql (to_sql_statement_create_or_replace
        \<lparr>schema = ''public'', signature = ''f()'', definition' = ''returns  ''\<rparr>)
      = None"
  by code_simp

end
